theory Spec2Isabelle
  imports Complex_Main "HOL-Library.AList"
begin

section \<open>JavaScript values\<close>

text \<open>
  The proxy moves JSON between two protocols. A tool's parameter schema, a tool call's
  input and a function call's arguments are arbitrary JSON and are modelled by \<open>json\<close>.
  An object is the list of its own enumerable properties in the order \<open>Object.entries\<close>
  returns them. Numbers are only copied and tested against zero by the code.
\<close>

datatype json =
    JNull
  | JBool bool
  | JNum rat
  | JStr string
  | JArr "json list"
  | JObj "(string \<times> json) list"

text \<open>JavaScript truthiness, as used by \<open>!schema\<close>, \<open>value && ...\<close> and \<open>a || b\<close>.\<close>

fun truthy :: "json \<Rightarrow> bool" where
  "truthy JNull = False"
| "truthy (JBool b) = b"
| "truthy (JNum n) = (n \<noteq> 0)"
| "truthy (JStr s) = (s \<noteq> [])"
| "truthy (JArr xs) = True"
| "truthy (JObj kvs) = True"

text \<open>\<open>typeof v === 'object'\<close>: true of objects, arrays and \<open>null\<close>.\<close>

fun typeofObject :: "json \<Rightarrow> bool" where
  "typeofObject JNull = True"
| "typeofObject (JArr xs) = True"
| "typeofObject (JObj kvs) = True"
| "typeofObject v = False"

fun isArray :: "json \<Rightarrow> bool" where
  "isArray (JArr xs) = True"
| "isArray v = False"

fun elements :: "json \<Rightarrow> json list" where
  "elements (JArr xs) = xs"
| "elements v = []"

text \<open>Truthiness of an optional string (\<open>undefined\<close> and \<open>''\<close> are falsy) and \<open>a || b\<close>.\<close>

fun truthyStr :: "string option \<Rightarrow> bool" where
  "truthyStr None = False"
| "truthyStr (Some s) = (s \<noteq> [])"

fun strOr :: "string option \<Rightarrow> string \<Rightarrow> string" where
  "strOr None d = d"
| "strOr (Some s) d = (if s \<noteq> [] then s else d)"

fun firstTruthyStr :: "string option list \<Rightarrow> string option" where
  "firstTruthyStr [] = None"
| "firstTruthyStr (x # xs) = (if truthyStr x then x else firstTruthyStr xs)"

fun jsonOr :: "json option \<Rightarrow> json \<Rightarrow> json" where
  "jsonOr None d = d"
| "jsonOr (Some v) d = (if truthy v then v else d)"

fun firstTruthyJson :: "json option list \<Rightarrow> json option" where
  "firstTruthyJson [] = None"
| "firstTruthyJson (None # xs) = firstTruthyJson xs"
| "firstTruthyJson (Some v # xs) = (if truthy v then Some v else firstTruthyJson xs)"

text \<open>Decimal rendering of a non-negative integer (template literals, array indices).\<close>

definition digitChar :: "nat \<Rightarrow> char" where
  "digitChar d = char_of (48 + d)"

function showNat :: "nat \<Rightarrow> string" where
  "showNat n = (if n < 10 then [digitChar n] else showNat (n div 10) @ [digitChar (n mod 10)])"
  by pat_completeness auto
termination
  by (relation "measure id") auto

declare showNat.simps [simp del]

text \<open>
  \<open>Object.entries\<close> of an object or an array (an array's keys are its indices); the code
  calls it on nothing else.
\<close>

fun indexed :: "nat \<Rightarrow> json list \<Rightarrow> (string \<times> json) list" where
  "indexed i [] = []"
| "indexed i (x # xs) = (showNat i, x) # indexed (Suc i) xs"

fun entries :: "json \<Rightarrow> (string \<times> json) list" where
  "entries (JObj kvs) = kvs"
| "entries (JArr xs) = indexed 0 xs"
| "entries v = []"

text \<open>
  Reading a data property \<open>v.k\<close> of a plain object (\<open>None\<close> is \<open>undefined\<close>), and whether it
  is truthy.
\<close>

fun getField :: "json \<Rightarrow> string \<Rightarrow> json option" where
  "getField (JObj kvs) k = map_of kvs k"
| "getField v k = None"

definition fieldTruthy :: "json \<Rightarrow> string \<Rightarrow> bool" where
  "fieldTruthy v k = (case getField v k of None \<Rightarrow> False | Some x \<Rightarrow> truthy x)"

text \<open>
  The assignment \<open>obj[k] = v\<close> on an object literal: an existing key keeps its place, a new
  key goes last. Assigning to \<open>__proto__\<close> runs the setter inherited from
  \<open>Object.prototype\<close> and creates no own property.
\<close>

definition setProp :: "string \<Rightarrow> json \<Rightarrow> (string \<times> json) list \<Rightarrow> (string \<times> json) list" where
  "setProp k v obj = (if k = ''__proto__'' then obj else AList.update k v obj)"

section \<open>Schema Sanitizer (\<open>sanitizeSchema\<close>, format-converter.js)\<close>

definition UNSUPPORTED_FIELDS :: "string list" where
  "UNSUPPORTED_FIELDS =
    [''$schema'', ''additionalProperties'', ''default'', ''anyOf'', ''allOf'', ''oneOf'',
     ''minLength'', ''maxLength'', ''pattern'', ''format'', ''minimum'', ''maximum'',
     ''exclusiveMinimum'', ''exclusiveMaximum'', ''minItems'', ''maxItems'', ''uniqueItems'',
     ''minProperties'', ''maxProperties'', ''$id'', ''$ref'', ''$defs'', ''definitions'',
     ''patternProperties'', ''unevaluatedProperties'', ''unevaluatedItems'', ''if'', ''then'',
     ''else'', ''not'', ''contentEncoding'', ''contentMediaType'']"

lemma size_indexed:
  "size_list (\<lambda>p. size (snd p)) (indexed i xs) = size_list size xs"
  by (induction xs arbitrary: i) auto

lemma size_snd_le:
  "size_list (\<lambda>p. size (snd p)) kvs \<le> size_list (size_prod (\<lambda>_. 0) size) kvs"
  by (induction kvs) auto

lemma size_entries:
  "size_list (\<lambda>p. size (snd p)) (entries s) \<le> size s"
proof (cases s)
  case (JObj kvs)
  then show ?thesis using size_snd_le [of kvs] by simp
qed (simp_all add: size_indexed)

lemma size_elements:
  "isArray v \<Longrightarrow> size_list size (elements v) < size v"
  by (cases v) simp_all

text \<open>
  \<open>sanitizeEntries\<close> is the loop over \<open>Object.entries(schema)\<close> with the object \<open>sanitized\<close>
  built so far, \<open>sanitizeProperties\<close> the inner loop over the entries of \<open>properties\<close>,
  and \<open>sanitizeItems\<close> is \<open>value.map(item => sanitizeSchema(item))\<close>.
\<close>

function (sequential) sanitizeSchema :: "json \<Rightarrow> json"
  and sanitizeEntries :: "(string \<times> json) list \<Rightarrow> (string \<times> json) list \<Rightarrow> (string \<times> json) list"
  and sanitizeProperties :: "(string \<times> json) list \<Rightarrow> (string \<times> json) list \<Rightarrow> (string \<times> json) list"
  and sanitizeItems :: "json list \<Rightarrow> json list"
where
  "sanitizeSchema schema =
     (if \<not> truthy schema \<or> \<not> typeofObject schema then schema
      else JObj (sanitizeEntries (entries schema) []))"
| "sanitizeEntries [] sanitized = sanitized"
| "sanitizeEntries ((key, v) # rest) sanitized =
     (if key \<in> set UNSUPPORTED_FIELDS then sanitizeEntries rest sanitized
      else if key = ''properties'' \<and> truthy v \<and> typeofObject v then
        sanitizeEntries rest
          (setProp ''properties'' (JObj (sanitizeProperties (entries v) [])) sanitized)
      else if key = ''items'' \<and> truthy v \<and> typeofObject v then
        (if isArray v then
           sanitizeEntries rest (setProp ''items'' (JArr (sanitizeItems (elements v))) sanitized)
         else if fieldTruthy v ''anyOf'' \<or> fieldTruthy v ''allOf'' \<or> fieldTruthy v ''oneOf'' then
           sanitizeEntries rest (setProp ''items'' (JObj []) sanitized)
         else sanitizeEntries rest (setProp ''items'' (sanitizeSchema v) sanitized))
      else if typeofObject v \<and> v \<noteq> JNull \<and> \<not> isArray v then
        sanitizeEntries rest (setProp key (sanitizeSchema v) sanitized)
      else sanitizeEntries rest (setProp key v sanitized))"
| "sanitizeProperties [] props = props"
| "sanitizeProperties ((propKey, propValue) # rest) props =
     sanitizeProperties rest (setProp propKey (sanitizeSchema propValue) props)"
| "sanitizeItems [] = []"
| "sanitizeItems (item # rest) = sanitizeSchema item # sanitizeItems rest"
  by pat_completeness auto
termination
  apply (relation "measure (\<lambda>x. case x of
      Inl (Inl s) \<Rightarrow> 2 * size s + 1
    | Inl (Inr (es, acc)) \<Rightarrow> 2 * size_list (\<lambda>p. size (snd p)) es
    | Inr (Inl (es, acc)) \<Rightarrow> 2 * size_list (\<lambda>p. size (snd p)) es
    | Inr (Inr xs) \<Rightarrow> 2 * size_list size xs)")
  apply simp
  subgoal for schema using size_entries [of schema] by simp
  subgoal by simp
  subgoal for key v rest sanitized using size_entries [of v] by simp
  subgoal by simp
  subgoal for key v rest sanitized using size_elements [of v] by simp
  apply simp_all
  done

declare sanitizeSchema.simps [simp del]

text \<open>
  Two ways of reading the keys of a sanitized schema. \<open>keysAnyDepth\<close> lists every key of
  every object anywhere in the value. \<open>keywordKeys\<close> lists the keys that stand where a
  JSON-Schema keyword stands: the keys of the schema object itself and of the schemas
  nested under it through an object-valued field, through the values of \<open>properties\<close>
  (whose keys are property names, not keywords) and through \<open>items\<close> (one schema or a
  list of schemas). An array under any other key is a list of plain values.
\<close>

fun keysAnyDepth :: "json \<Rightarrow> string list" where
  "keysAnyDepth (JObj kvs) = concat (map (\<lambda>(k, v). k # keysAnyDepth v) kvs)"
| "keysAnyDepth (JArr xs) = concat (map keysAnyDepth xs)"
| "keysAnyDepth v = []"

fun keywordKeys :: "json \<Rightarrow> string list" where
  "keywordKeys (JObj kvs) =
     concat (map (\<lambda>(k, v). k #
       (if k = ''properties'' then
          (case v of JObj ps \<Rightarrow> concat (map (\<lambda>(pk, pv). keywordKeys pv) ps) | _ \<Rightarrow> [])
        else if k = ''items'' then
          (case v of JArr xs \<Rightarrow> concat (map keywordKeys xs) | _ \<Rightarrow> keywordKeys v)
        else keywordKeys v)) kvs)"
| "keywordKeys v = []"

section \<open>Strings\<close>

text \<open>
  A character stands for one code unit of a JavaScript string, so \<open>length\<close>, \<open>take\<close> and
  \<open>drop\<close> count what \<open>text.length\<close> and \<open>text.slice\<close> count. HOL characters are
  8-bit: the model covers text whose code units are below 256. The functions below
  compare code units with ASCII characters only, apart from \<open>toLowerCase\<close>, which also
  maps the upper-case letters of the Latin-1 range.
\<close>

definition toLowerChar :: "char \<Rightarrow> char" where
  "toLowerChar c =
     (let n = (of_char c :: nat) in
      if (65 \<le> n \<and> n \<le> 90) \<or> (192 \<le> n \<and> n \<le> 214) \<or> (216 \<le> n \<and> n \<le> 222)
      then char_of (n + 32) else c)"

definition toLowerCase :: "string \<Rightarrow> string" where
  "toLowerCase s = map toLowerChar s"

text \<open>\<open>s.includes(sub)\<close>: \<open>sub\<close> starts at some position of \<open>s\<close>.\<close>

fun includesStr :: "string \<Rightarrow> string \<Rightarrow> bool" where
  "includesStr [] sub = (sub = [])"
| "includesStr (c # cs) sub = (take (length sub) (c # cs) = sub \<or> includesStr cs sub)"

text \<open>\<open>Array.prototype.join('\n')\<close> on strings.\<close>

fun joinLines :: "string list \<Rightarrow> string" where
  "joinLines [] = []"
| "joinLines [x] = x"
| "joinLines (x # y # ys) = x @ [CHR 0x0A] @ joinLines (y # ys)"

text \<open>The character class \<open>[a-zA-Z0-9_-]\<close> of the tool-name pattern.\<close>

definition nameChar :: "char \<Rightarrow> bool" where
  "nameChar c =
     (let n = (of_char c :: nat) in
      (97 \<le> n \<and> n \<le> 122) \<or> (65 \<le> n \<and> n \<le> 90) \<or> (48 \<le> n \<and> n \<le> 57)
      \<or> c = CHR ''_'' \<or> c = CHR ''-'')"

section \<open>Data model of the two protocols\<close>

text \<open>
  Requests and responses are typed as the protocols type them; a field the code tests for
  presence or truthiness is an \<open>option\<close> (\<open>None\<close> is \<open>undefined\<close>).
\<close>

datatype source =
    Base64Source "string option" "string option"
  | UrlSource "string option" "string option"
  | OtherSource

datatype resultItem = TextItem string | OtherItem

datatype toolResultContent =
    ResultString string
  | ResultItems "resultItem list"
  | ResultRaw "json option"

text \<open>
  A content block by its \<open>type\<close>: \<open>text\<close>, \<open>image\<close> and \<open>document\<close> (with \<open>source\<close>),
  \<open>tool_use\<close> (\<open>id\<close>, \<open>name\<close>, \<open>input\<close>), \<open>tool_result\<close> (\<open>tool_use_id\<close>, \<open>content\<close>),
  \<open>thinking\<close>, \<open>redacted_thinking\<close>, and any other type.
\<close>

datatype contentBlock =
    TextBlock string
  | ImageBlock "source option"
  | DocumentBlock "source option"
  | ToolUseBlock "string option" "string option" "json option"
  | ToolResultBlock "string option" toolResultContent
  | ThinkingBlock string
  | RedactedThinkingBlock
  | OtherBlock

record functionCall =
  fc_name :: "string option"
  fc_args :: "json option"
  fc_id :: "string option"

record functionResponse =
  fr_name :: string
  fr_response :: "json option"
  fr_id :: "string option"

text \<open>
  A backend part: \<open>{text, thought}\<close> (the flag is \<open>thought === true\<close>),
  \<open>{inlineData: {mimeType, data}}\<close>, \<open>{fileData: {mimeType, fileUri}}\<close>, \<open>{functionCall}\<close>,
  \<open>{functionResponse}\<close>, or a part with none of these.
\<close>

datatype part =
    TextPart string bool
  | InlineDataPart "string option" "string option"
  | FileDataPart string "string option"
  | FunctionCallPart functionCall
  | FunctionResponsePart functionResponse
  | OtherPart

text \<open>
  A message's content is a string, an array of blocks, or something else, which the code
  renders with \<open>String(content)\<close>: \<open>ContentOther\<close> carries that rendering.
\<close>

datatype messageContent =
    ContentString string
  | ContentBlocks "contentBlock list"
  | ContentOther string

record message =
  msg_role :: string
  msg_content :: messageContent

datatype systemPrompt =
    SystemString string
  | SystemBlocks "contentBlock list"
  | SystemOther

text \<open>
  A tool's \<open>name\<close> as the code meets it. The code reads it with \<open>||\<close> and renders it with
  \<open>String(name)\<close>, so it need not be a string: \<open>NameOther t s\<close> is a value of any other
  kind, given by its truthiness \<open>t\<close> and by its rendering \<open>s\<close>, the result of \<open>String\<close> on
  it. The empty array \<open>[]\<close> is \<open>NameOther True []\<close>: every object is truthy, and an array
  renders as its elements joined by commas, which for no element is the empty string. The
  number \<open>7\<close> is \<open>NameOther True ''7''\<close>, the object \<open>{}\<close> is
  \<open>NameOther True ''[object Object]''\<close>, and \<open>null\<close> is \<open>NameOther False ''null''\<close>.
  A value on which \<open>String\<close> throws (an object with an own property \<open>toString\<close> that is
  not a function) has no rendering and is not a \<open>nameValue\<close>.
\<close>

datatype nameValue =
    NameString string
  | NameOther bool string

record toolFunction =
  fn_name :: "nameValue option"
  fn_description :: "string option"
  fn_input_schema :: "json option"
  fn_parameters :: "json option"

record toolSpec =
  tool_name :: "nameValue option"
  tool_description :: "string option"
  tool_input_schema :: "json option"
  tool_function :: "toolFunction option"
  tool_custom :: "toolFunction option"
  tool_parameters :: "json option"

text \<open>
  The fields of a request that \<open>convertAnthropicToGoogle\<close> reads (\<open>tool_choice\<close> and
  \<open>thinking\<close> are destructured there and never used).
\<close>

record anthropicRequest =
  req_model :: "string option"
  req_messages :: "message list"
  req_system :: "systemPrompt option"
  req_max_tokens :: "rat option"
  req_temperature :: "rat option"
  req_top_p :: "rat option"
  req_top_k :: "rat option"
  req_stop_sequences :: "string list option"
  req_tools :: "toolSpec list option"

record generationConfig =
  maxOutputTokens :: "rat option"
  temperature :: "rat option"
  topP :: "rat option"
  topK :: "rat option"
  stopSequences :: "string list option"

record googleContent =
  gc_role :: string
  gc_parts :: "part list"

record functionDeclaration =
  fd_name :: string
  fd_description :: string
  fd_parameters :: json

text \<open>\<open>gr_tools\<close> is the list inside \<open>tools: [{ functionDeclarations }]\<close>.\<close>

record googleRequest =
  gr_contents :: "googleContent list"
  gr_generationConfig :: generationConfig
  gr_systemInstruction :: "part list option"
  gr_tools :: "functionDeclaration list option"
  gr_sessionId :: "string option"

record candidateContent =
  cc_parts :: "part list option"

record candidate =
  cand_content :: "candidateContent option"
  cand_finishReason :: "string option"

record usageMetadata =
  promptTokenCount :: "nat option"
  candidatesTokenCount :: "nat option"

record responseBody =
  rb_candidates :: "candidate list option"
  rb_usageMetadata :: "usageMetadata option"

text \<open>A backend response is the body itself or the body wrapped as \<open>{response: body}\<close>.\<close>

datatype googleResponse = Wrapped responseBody | Unwrapped responseBody

record anthropicResponse =
  resp_id :: string
  resp_type :: string
  resp_role :: string
  resp_content :: "contentBlock list"
  resp_model :: "string option"
  resp_stop_reason :: string
  resp_stop_sequence :: "string option"
  resp_input_tokens :: nat
  resp_output_tokens :: nat

section \<open>Content Converter and Request Builder (format-converter.js)\<close>

definition MODEL_MAPPINGS :: "(string \<times> string) list" where
  "MODEL_MAPPINGS =
    [(''claude-3-opus-20240229'', ''claude-opus-4-5-thinking''),
     (''claude-3-5-opus-20240229'', ''claude-opus-4-5-thinking''),
     (''claude-3-5-sonnet-20241022'', ''claude-sonnet-4-5''),
     (''claude-3-5-sonnet-20240620'', ''claude-sonnet-4-5''),
     (''claude-3-sonnet-20240229'', ''claude-sonnet-4-5''),
     (''claude-sonnet-4-5'', ''claude-sonnet-4-5''),
     (''claude-sonnet-4-5-thinking'', ''claude-sonnet-4-5-thinking''),
     (''claude-opus-4-5-thinking'', ''claude-opus-4-5-thinking'')]"

text \<open>
  \<open>MODEL_MAPPINGS[anthropicModel] || anthropicModel\<close>. The table is an object literal, so
  a model named like a member of \<open>Object.prototype\<close> reads that member instead of a
  model name.
\<close>

definition OBJECT_PROTOTYPE_MEMBERS :: "string list" where
  "OBJECT_PROTOTYPE_MEMBERS =
    [''constructor'', ''__defineGetter__'', ''__defineSetter__'', ''hasOwnProperty'',
     ''__lookupGetter__'', ''__lookupSetter__'', ''isPrototypeOf'', ''propertyIsEnumerable'',
     ''toString'', ''valueOf'', ''__proto__'', ''toLocaleString'']"

datatype mappedModel = ModelName string | InheritedMember string | NoModel

definition mapModelName :: "string option \<Rightarrow> mappedModel" where
  "mapModelName anthropicModel =
     (case anthropicModel of
        None \<Rightarrow> NoModel
      | Some m \<Rightarrow>
          (case map_of MODEL_MAPPINGS m of
             Some mapped \<Rightarrow> ModelName mapped
           | None \<Rightarrow> if m \<in> set OBJECT_PROTOTYPE_MEMBERS then InheritedMember m else ModelName m))"

text \<open>The parts one iteration of the loop in \<open>convertContentToParts\<close> pushes.\<close>

fun blockParts :: "bool \<Rightarrow> contentBlock \<Rightarrow> part list" where
  "blockParts isClaudeModel (TextBlock t) = [TextPart t False]"
| "blockParts isClaudeModel (ImageBlock src) =
     (case src of
        Some (Base64Source media_type d) \<Rightarrow> [InlineDataPart media_type d]
      | Some (UrlSource media_type url) \<Rightarrow> [FileDataPart (strOr media_type ''image/jpeg'') url]
      | _ \<Rightarrow> [])"
| "blockParts isClaudeModel (DocumentBlock src) =
     (case src of
        Some (Base64Source media_type d) \<Rightarrow> [InlineDataPart media_type d]
      | Some (UrlSource media_type url) \<Rightarrow> [FileDataPart (strOr media_type ''application/pdf'') url]
      | _ \<Rightarrow> [])"
| "blockParts isClaudeModel (ToolUseBlock tid name inp) =
     [FunctionCallPart
        \<lparr>fc_name = name,
         fc_args = Some (jsonOr inp (JObj [])),
         fc_id = (if isClaudeModel \<and> truthyStr tid then tid else None)\<rparr>]"
| "blockParts isClaudeModel (ToolResultBlock tool_use_id content) =
     [FunctionResponsePart
        \<lparr>fr_name = strOr tool_use_id ''unknown'',
         fr_response =
           (case content of
              ResultString str \<Rightarrow> Some (JObj [(''result'', JStr str)])
            | ResultItems cs \<Rightarrow> Some (JObj [(''result'', JStr (joinLines [t. TextItem t \<leftarrow> cs]))])
            | ResultRaw raw \<Rightarrow> raw),
         fr_id = (if isClaudeModel \<and> truthyStr tool_use_id then tool_use_id else None)\<rparr>]"
| "blockParts isClaudeModel (ThinkingBlock thinking) =
     (if \<not> isClaudeModel then [TextPart thinking True] else [])"
| "blockParts isClaudeModel RedactedThinkingBlock = []"
| "blockParts isClaudeModel OtherBlock = []"

fun pushBlocks :: "bool \<Rightarrow> contentBlock list \<Rightarrow> part list \<Rightarrow> part list" where
  "pushBlocks isClaudeModel [] parts = parts"
| "pushBlocks isClaudeModel (block # rest) parts =
     pushBlocks isClaudeModel rest (parts @ blockParts isClaudeModel block)"

definition convertContentToParts :: "messageContent \<Rightarrow> bool \<Rightarrow> part list" where
  "convertContentToParts content isClaudeModel =
     (case content of
        ContentString str \<Rightarrow> [TextPart str False]
      | ContentOther str \<Rightarrow> [TextPart str False]
      | ContentBlocks blocks \<Rightarrow>
          (let parts = pushBlocks isClaudeModel blocks []
           in if length parts > 0 then parts else [TextPart [] False]))"

definition convertRole :: "string \<Rightarrow> string" where
  "convertRole role =
     (if role = ''assistant'' then ''model'' else if role = ''user'' then ''user'' else ''user'')"

definition isClaudeModelOf :: "anthropicRequest \<Rightarrow> bool" where
  "isClaudeModelOf anthropicRequest =
     includesStr (toLowerCase (strOr (req_model anthropicRequest) [])) ''claude''"

definition systemInstructionOf :: "systemPrompt option \<Rightarrow> part list option" where
  "systemInstructionOf system =
     (case system of
        None \<Rightarrow> None
      | Some (SystemString str) \<Rightarrow> if str \<noteq> [] then Some [TextPart str False] else None
      | Some (SystemBlocks blocks) \<Rightarrow>
          (let systemParts = [TextPart t False. TextBlock t \<leftarrow> blocks]
           in if length systemParts > 0 then Some systemParts else None)
      | Some SystemOther \<Rightarrow> None)"

fun pushMessages :: "bool \<Rightarrow> message list \<Rightarrow> googleContent list \<Rightarrow> googleContent list" where
  "pushMessages isClaudeModel [] contents = contents"
| "pushMessages isClaudeModel (msg # rest) contents =
     pushMessages isClaudeModel rest
       (contents @ [\<lparr>gc_role = convertRole (msg_role msg),
                      gc_parts = convertContentToParts (msg_content msg) isClaudeModel\<rparr>])"

definition generationConfigOf :: "anthropicRequest \<Rightarrow> generationConfig" where
  "generationConfigOf r =
     \<lparr>maxOutputTokens = (case req_max_tokens r of Some n \<Rightarrow> if n \<noteq> 0 then Some n else None | None \<Rightarrow> None),
      temperature = req_temperature r,
      topP = req_top_p r,
      topK = req_top_k r,
      stopSequences =
        (case req_stop_sequences r of
           Some ss \<Rightarrow> if length ss > 0 then Some ss else None
         | None \<Rightarrow> None)\<rparr>"

text \<open>
  Truthiness of a name (\<open>undefined\<close> and the empty string are falsy), the first truthy
  one of \<open>a || b || c\<close>, and \<open>String(name)\<close>.
\<close>

fun truthyName :: "nameValue option \<Rightarrow> bool" where
  "truthyName None = False"
| "truthyName (Some (NameString s)) = (s \<noteq> [])"
| "truthyName (Some (NameOther t s)) = t"

fun firstTruthyName :: "nameValue option list \<Rightarrow> nameValue option" where
  "firstTruthyName [] = None"
| "firstTruthyName (x # xs) = (if truthyName x then x else firstTruthyName xs)"

fun stringOf :: "nameValue \<Rightarrow> string" where
  "stringOf (NameString s) = s"
| "stringOf (NameOther t s) = s"

text \<open>
  One tool declaration: name, description and schema are each taken from the first place
  that holds a truthy one (\<open>tool\<close>, \<open>tool.function\<close>, \<open>tool.custom\<close>), the name falling
  back to the string \<open>tool-<idx>\<close>. The name chosen is whatever value stands there.
\<close>

definition toolNameOf :: "toolSpec \<Rightarrow> nat \<Rightarrow> nameValue" where
  "toolNameOf tool idx =
     (case firstTruthyName
             [tool_name tool,
              Option.bind (tool_function tool) fn_name,
              Option.bind (tool_custom tool) fn_name] of
        Some name \<Rightarrow> name
      | None \<Rightarrow> NameString (''tool-'' @ showNat idx))"

text \<open>\<open>String(name).replace(/[^a-zA-Z0-9_-]/g, '_').slice(0, 64)\<close>.\<close>

definition sanitizeName :: "nameValue \<Rightarrow> string" where
  "sanitizeName name =
     take 64 (map (\<lambda>c. if nameChar c then c else CHR ''_'') (stringOf name))"

definition toolDescriptionOf :: "toolSpec \<Rightarrow> string" where
  "toolDescriptionOf tool =
     (case firstTruthyStr
             [tool_description tool,
              Option.bind (tool_function tool) fn_description,
              Option.bind (tool_custom tool) fn_description] of
        Some description \<Rightarrow> description
      | None \<Rightarrow> [])"

definition toolSchemaOf :: "toolSpec \<Rightarrow> json" where
  "toolSchemaOf tool =
     (case firstTruthyJson
             [tool_input_schema tool,
              Option.bind (tool_function tool) fn_input_schema,
              Option.bind (tool_function tool) fn_parameters,
              Option.bind (tool_custom tool) fn_input_schema,
              tool_parameters tool] of
        Some schema \<Rightarrow> schema
      | None \<Rightarrow> JObj [(''type'', JStr ''object'')])"

definition functionDeclarationOf :: "nat \<times> toolSpec \<Rightarrow> functionDeclaration" where
  "functionDeclarationOf it =
     (case it of (idx, tool) \<Rightarrow>
        \<lparr>fd_name = sanitizeName (toolNameOf tool idx),
         fd_description = toolDescriptionOf tool,
         fd_parameters = sanitizeSchema (toolSchemaOf tool)\<rparr>)"

definition convertAnthropicToGoogle :: "anthropicRequest \<Rightarrow> googleRequest" where
  "convertAnthropicToGoogle anthropicRequest =
     (let isClaudeModel = isClaudeModelOf anthropicRequest
      in \<lparr>gr_contents = pushMessages isClaudeModel (req_messages anthropicRequest) [],
          gr_generationConfig = generationConfigOf anthropicRequest,
          gr_systemInstruction = systemInstructionOf (req_system anthropicRequest),
          gr_tools =
            (case req_tools anthropicRequest of
               Some tools \<Rightarrow>
                 if length tools > 0
                 then Some (map functionDeclarationOf (enumerate 0 tools))
                 else None
             | None \<Rightarrow> None),
          gr_sessionId = None\<rparr>)"

section \<open>Response Converter (\<open>convertGoogleToAnthropic\<close>, format-converter.js)\<close>

text \<open>
  \<open>randomBytesHex k n\<close> is the hex text of the \<open>k\<close>-th call \<open>crypto.randomBytes(n)\<close>; the
  converter is given the number of calls made so far and returns the number after it.
  The loop over the parts carries \<open>anthropicContent\<close>, \<open>toolCallCounter\<close> and that number.
\<close>

fun convertParts ::
  "(nat \<Rightarrow> nat \<Rightarrow> string) \<Rightarrow> part list \<Rightarrow> contentBlock list \<times> nat \<times> nat \<Rightarrow> contentBlock list \<times> nat \<times> nat"
where
  "convertParts randomBytesHex [] st = st"
| "convertParts randomBytesHex (TextPart t thought # rest) (anthropicContent, toolCallCounter, k) =
     (if thought then convertParts randomBytesHex rest (anthropicContent, toolCallCounter, k)
      else convertParts randomBytesHex rest (anthropicContent @ [TextBlock t], toolCallCounter, k))"
| "convertParts randomBytesHex (FunctionCallPart fc # rest) (anthropicContent, toolCallCounter, k) =
     (if truthyStr (fc_id fc) then
        convertParts randomBytesHex rest
          (anthropicContent @ [ToolUseBlock (fc_id fc) (fc_name fc) (Some (jsonOr (fc_args fc) (JObj [])))],
           toolCallCounter + 1, k)
      else
        convertParts randomBytesHex rest
          (anthropicContent @
             [ToolUseBlock (Some (''toolu_'' @ randomBytesHex k 12)) (fc_name fc)
                (Some (jsonOr (fc_args fc) (JObj [])))],
           toolCallCounter + 1, k + 1))"
| "convertParts randomBytesHex (p # rest) st = convertParts randomBytesHex rest st"

definition bodyOf :: "googleResponse \<Rightarrow> responseBody" where
  "bodyOf googleResponse = (case googleResponse of Wrapped b \<Rightarrow> b | Unwrapped b \<Rightarrow> b)"

definition firstCandidateOf :: "responseBody \<Rightarrow> candidate" where
  "firstCandidateOf response =
     (case rb_candidates response of
        Some (c # cs) \<Rightarrow> c
      | _ \<Rightarrow> \<lparr>cand_content = None, cand_finishReason = None\<rparr>)"

definition partsOf :: "candidate \<Rightarrow> part list" where
  "partsOf firstCandidate =
     (case cand_content firstCandidate of
        Some content \<Rightarrow> (case cc_parts content of Some parts \<Rightarrow> parts | None \<Rightarrow> [])
      | None \<Rightarrow> [])"

definition stopReasonOf :: "string option \<Rightarrow> nat \<Rightarrow> string" where
  "stopReasonOf finishReason toolCallCounter =
     (if finishReason = Some ''STOP'' then ''end_turn''
      else if finishReason = Some ''MAX_TOKENS'' then ''max_tokens''
      else if finishReason = Some ''TOOL_USE'' \<or> toolCallCounter > 0 then ''tool_use''
      else ''end_turn'')"

definition tokenCount :: "usageMetadata option \<Rightarrow> (usageMetadata \<Rightarrow> nat option) \<Rightarrow> nat" where
  "tokenCount usage field =
     (case usage of None \<Rightarrow> 0 | Some u \<Rightarrow> (case field u of None \<Rightarrow> 0 | Some n \<Rightarrow> n))"

definition convertGoogleToAnthropic ::
  "(nat \<Rightarrow> nat \<Rightarrow> string) \<Rightarrow> googleResponse \<Rightarrow> string option \<Rightarrow> nat \<Rightarrow> anthropicResponse \<times> nat"
where
  "convertGoogleToAnthropic randomBytesHex googleResponse model k0 =
     (let response = bodyOf googleResponse;
          firstCandidate = firstCandidateOf response;
          parts = partsOf firstCandidate
      in case convertParts randomBytesHex parts ([], 0, k0) of
           (anthropicContent, toolCallCounter, k) \<Rightarrow>
             (\<lparr>resp_id = ''msg_'' @ randomBytesHex k 16,
               resp_type = ''message'',
               resp_role = ''assistant'',
               resp_content =
                 (if length anthropicContent > 0 then anthropicContent else [TextBlock []]),
               resp_model = model,
               resp_stop_reason = stopReasonOf (cand_finishReason firstCandidate) toolCallCounter,
               resp_stop_sequence = None,
               resp_input_tokens = tokenCount (rb_usageMetadata response) promptTokenCount,
               resp_output_tokens = tokenCount (rb_usageMetadata response) candidatesTokenCount\<rparr>,
              k + 1))"

section \<open>Stream Synthesizer (\<open>sendMessageStream\<close>, cloudcode-client.js)\<close>

definition STREAMING_CHUNK_SIZE :: nat where
  "STREAMING_CHUNK_SIZE = 20"

text \<open>
  The events the generator yields. \<open>content_block_start\<close> carries an empty text block or
  a tool_use block with its id and name (and the input \<open>{}\<close>); an \<open>input_json_delta\<close>
  carries \<open>JSON.stringify(block.input)\<close>, kept here as the value that is serialized.
\<close>

datatype startBlock = StartText | StartToolUse "string option" "string option"

datatype delta = TextDelta string | InputJsonDelta "json option"

datatype streamEvent =
    MessageStart string "string option" nat
  | ContentBlockStart nat startBlock
  | ContentBlockDelta nat delta
  | ContentBlockStop nat
  | MessageDelta string "string option" nat
  | MessageStop

text \<open>
  The loop \<open>for (let i = 0; i < text.length; i += STREAMING_CHUNK_SIZE)\<close>, yielding
  \<open>text.slice(i, i + STREAMING_CHUNK_SIZE)\<close>.
\<close>

function textChunks :: "string \<Rightarrow> nat \<Rightarrow> string list" where
  "textChunks text i =
     (if i < length text
      then take STREAMING_CHUNK_SIZE (drop i text) # textChunks text (i + STREAMING_CHUNK_SIZE)
      else [])"
  by pat_completeness auto
termination
  by (relation "measure (\<lambda>(text, i). length text - i)") (auto simp: STREAMING_CHUNK_SIZE_def)

declare textChunks.simps [simp del]

text \<open>The loop over \<open>fullResponse.content\<close> with its counter \<open>blockIndex\<close>.\<close>

fun blockEvents :: "contentBlock list \<Rightarrow> nat \<Rightarrow> streamEvent list" where
  "blockEvents [] blockIndex = []"
| "blockEvents (TextBlock t # rest) blockIndex =
     ContentBlockStart blockIndex StartText
     # map (\<lambda>chunk. ContentBlockDelta blockIndex (TextDelta chunk)) (textChunks t 0)
     @ [ContentBlockStop blockIndex]
     @ blockEvents rest (blockIndex + 1)"
| "blockEvents (ToolUseBlock tid name inp # rest) blockIndex =
     [ContentBlockStart blockIndex (StartToolUse tid name),
      ContentBlockDelta blockIndex (InputJsonDelta inp),
      ContentBlockStop blockIndex]
     @ blockEvents rest (blockIndex + 1)"
| "blockEvents (block # rest) blockIndex = blockEvents rest blockIndex"

definition streamEvents :: "anthropicResponse \<Rightarrow> streamEvent list" where
  "streamEvents fullResponse =
     MessageStart (resp_id fullResponse) (resp_model fullResponse) (resp_input_tokens fullResponse)
     # blockEvents (resp_content fullResponse) 0
     @ [MessageDelta (resp_stop_reason fullResponse) (resp_stop_sequence fullResponse)
          (resp_output_tokens fullResponse),
        MessageStop]"

text \<open>Observations on an event sequence, used to state its properties.\<close>

fun isMessageStart :: "streamEvent \<Rightarrow> bool" where
  "isMessageStart (MessageStart i m n) = True"
| "isMessageStart e = False"

fun isMessageStop :: "streamEvent \<Rightarrow> bool" where
  "isMessageStop MessageStop = True"
| "isMessageStop e = False"

fun isStreamed :: "contentBlock \<Rightarrow> bool" where
  "isStreamed (TextBlock t) = True"
| "isStreamed (ToolUseBlock tid name inp) = True"
| "isStreamed b = False"

definition stopIndices :: "streamEvent list \<Rightarrow> nat list" where
  "stopIndices evs = [k. ContentBlockStop k \<leftarrow> evs]"

definition textDeltas :: "nat \<Rightarrow> streamEvent list \<Rightarrow> string list" where
  "textDeltas k evs = [chunk. ContentBlockDelta j (TextDelta chunk) \<leftarrow> evs, j = k]"

section \<open>Project Resolver and Endpoint Dispatcher (cloudcode-client.js)\<close>

definition ANTIGRAVITY_ENDPOINT_DAILY :: string where
  "ANTIGRAVITY_ENDPOINT_DAILY = ''https://daily-cloudcode-pa.sandbox.googleapis.com''"

definition ANTIGRAVITY_ENDPOINT_AUTOPUSH :: string where
  "ANTIGRAVITY_ENDPOINT_AUTOPUSH = ''https://autopush-cloudcode-pa.sandbox.googleapis.com''"

definition ANTIGRAVITY_ENDPOINT_PROD :: string where
  "ANTIGRAVITY_ENDPOINT_PROD = ''https://cloudcode-pa.googleapis.com''"

definition ANTIGRAVITY_ENDPOINT_FALLBACKS :: "string list" where
  "ANTIGRAVITY_ENDPOINT_FALLBACKS =
     [ANTIGRAVITY_ENDPOINT_DAILY, ANTIGRAVITY_ENDPOINT_AUTOPUSH, ANTIGRAVITY_ENDPOINT_PROD]"

definition DEFAULT_PROJECT_ID :: string where
  "DEFAULT_PROJECT_ID = ''rising-fact-p41fc''"

datatype jsError = JsError string

text \<open>
  What \<open>await fetch(...)\<close> gives: a rejection with its message, or a response with its
  status and the two readings of its body, \<open>response.text()\<close> and \<open>response.json()\<close>
  (\<open>Inl\<close> the message thrown when the reading, or a later read of the parsed value,
  throws).
\<close>

datatype 'a fetched = FetchRejected string | Response nat "string + string" "string + 'a"

definition ok :: "nat \<Rightarrow> bool" where
  "ok status = (200 \<le> status \<and> status \<le> 299)"

text \<open>
  \<open>data.cloudaicompanionProject\<close> in the body of \<open>loadCodeAssist\<close>: a string, an object
  with an optional \<open>id\<close>, or nothing usable.
\<close>

datatype projectField = ProjectString string | ProjectObject "string option" | ProjectMissing

record payload =
  p_project :: string
  p_model :: mappedModel
  p_request :: googleRequest
  p_userAgent :: string
  p_requestId :: string

text \<open>
  Every call that leaves the module is recorded in the order it is made. The world outside
  is deterministic: what a call returns is a function of its arguments and of the calls
  made before it. \<open>getToken\<close> and \<open>refreshToken\<close> (token-extractor.js) either return or
  throw a message.
\<close>

datatype effect =
    GetToken
  | RefreshToken
  | LoadCodeAssist string string
  | GenerateContent string string payload

record environment =
  getTokenResult :: "effect list \<Rightarrow> string + string"
  refreshTokenResult :: "effect list \<Rightarrow> string option"
  loadCodeAssistResult :: "effect list \<Rightarrow> string \<Rightarrow> string \<Rightarrow> projectField fetched"
  generateContentResult :: "effect list \<Rightarrow> string \<Rightarrow> string \<Rightarrow> payload \<Rightarrow> googleResponse fetched"
  randomBytesHex :: "nat \<Rightarrow> nat \<Rightarrow> string"
  randomUUID :: "nat \<Rightarrow> string"
  randomSession :: "nat \<Rightarrow> string"

text \<open>
  The module's state: the variable \<open>cachedProject\<close>, the calls made so far, and how many
  random values have been drawn.
\<close>

record world =
  cachedProject :: "string option"
  history :: "effect list"
  draws :: nat

definition logged :: "effect \<Rightarrow> world \<Rightarrow> world" where
  "logged e w = w\<lparr>history := history w @ [e]\<rparr>"

text \<open>The loop of \<open>getProject\<close> over the endpoints, and the default after it.\<close>

fun discover :: "environment \<Rightarrow> string \<Rightarrow> string list \<Rightarrow> world \<Rightarrow> string \<times> world" where
  "discover env token [] w =
     (DEFAULT_PROJECT_ID, w\<lparr>cachedProject := Some DEFAULT_PROJECT_ID\<rparr>)"
| "discover env token (endpoint # rest) w =
     (let w1 = logged (LoadCodeAssist endpoint token) w
      in case loadCodeAssistResult env (history w) endpoint token of
           FetchRejected msg \<Rightarrow> discover env token rest w1
         | Response status bodyText parsed \<Rightarrow>
             if \<not> ok status then discover env token rest w1
             else (case parsed of
                     Inl msg \<Rightarrow> discover env token rest w1
                   | Inr (ProjectString str) \<Rightarrow>
                       if str \<noteq> [] then (str, w1\<lparr>cachedProject := Some str\<rparr>)
                       else discover env token rest w1
                   | Inr (ProjectObject None) \<Rightarrow> discover env token rest w1
                   | Inr (ProjectObject (Some pid)) \<Rightarrow>
                       if pid \<noteq> [] then (pid, w1\<lparr>cachedProject := Some pid\<rparr>)
                       else discover env token rest w1
                   | Inr ProjectMissing \<Rightarrow> discover env token rest w1))"

definition getProject :: "environment \<Rightarrow> string \<Rightarrow> world \<Rightarrow> string \<times> world" where
  "getProject env token w =
     (case cachedProject w of
        Some cached \<Rightarrow>
          if cached \<noteq> [] then (cached, w)
          else discover env token ANTIGRAVITY_ENDPOINT_FALLBACKS w
      | None \<Rightarrow> discover env token ANTIGRAVITY_ENDPOINT_FALLBACKS w)"

definition clearProjectCache :: "world \<Rightarrow> world" where
  "clearProjectCache w = w\<lparr>cachedProject := None\<rparr>"

text \<open>
  \<open>refreshAndGetProject\<close>: \<open>refreshToken()\<close>, \<open>getToken()\<close>, \<open>clearProjectCache()\<close>,
  \<open>getProject(token)\<close>; a throw of the first two leaves the rest undone.
\<close>

definition refreshAndGetProject :: "environment \<Rightarrow> world \<Rightarrow> (jsError + string \<times> string) \<times> world" where
  "refreshAndGetProject env w =
     (let w1 = logged RefreshToken w
      in case refreshTokenResult env (history w) of
           Some msg \<Rightarrow> (Inl (JsError msg), w1)
         | None \<Rightarrow>
             (let w2 = logged GetToken w1
              in case getTokenResult env (history w1) of
                   Inl msg \<Rightarrow> (Inl (JsError msg), w2)
                 | Inr token \<Rightarrow>
                     (case getProject env token (clearProjectCache w2) of
                        (project, w3) \<Rightarrow> (Inr (token, project), w3))))"

text \<open>
  \<open>buildCloudCodeRequest\<close>: the session id is \<open>'-'\<close> and a random integer's digits, the
  request id \<open>'agent-'\<close> and a random UUID.
\<close>

definition buildCloudCodeRequest ::
  "environment \<Rightarrow> anthropicRequest \<Rightarrow> string \<Rightarrow> world \<Rightarrow> payload \<times> world"
where
  "buildCloudCodeRequest env anthropicRequest projectId w =
     (let model = mapModelName (req_model anthropicRequest);
          googleRequest =
            (convertAnthropicToGoogle anthropicRequest)
              \<lparr>gr_sessionId := Some (''-'' @ randomSession env (draws w))\<rparr>
      in (\<lparr>p_project = projectId,
           p_model = model,
           p_request = googleRequest,
           p_userAgent = ''antigravity'',
           p_requestId = ''agent-'' @ randomUUID env (draws w + 1)\<rparr>,
          w\<lparr>draws := draws w + 2\<rparr>))"

text \<open>
  A body is read once: after \<open>response.text()\<close> on a response that is not ok,
  \<open>response.json()\<close> throws this message.
\<close>

definition BODY_ALREADY_READ :: string where
  "BODY_ALREADY_READ = ''Body is unusable: Body has already been read''"

text \<open>
  The loop of \<open>sendMessage\<close> over the endpoints. It carries \<open>token\<close>, \<open>payload\<close> and
  \<open>lastError\<close>; the \<open>catch\<close> of its body turns every throw into \<open>lastError\<close> and goes on
  with the next endpoint, as every \<open>continue\<close> does.
\<close>

fun dispatch ::
  "environment \<Rightarrow> anthropicRequest \<Rightarrow> string list \<Rightarrow> string \<times> payload \<times> jsError option \<Rightarrow> world
   \<Rightarrow> (jsError + anthropicResponse) \<times> world"
where
  "dispatch env anthropicRequest [] (token, payload, lastError) w =
     (Inl (case lastError of Some e \<Rightarrow> e | None \<Rightarrow> JsError ''All endpoints failed''), w)"
| "dispatch env anthropicRequest (endpoint # rest) (token, payload, lastError) w =
     (let w1 = logged (GenerateContent endpoint token payload) w
      in case generateContentResult env (history w) endpoint token payload of
           FetchRejected msg \<Rightarrow>
             dispatch env anthropicRequest rest (token, payload, Some (JsError msg)) w1
         | Response status bodyText parsed \<Rightarrow>
             if \<not> ok status then
               (case bodyText of
                  Inl msg \<Rightarrow>
                    dispatch env anthropicRequest rest (token, payload, Some (JsError msg)) w1
                | Inr errorText \<Rightarrow>
                    if status = 401 then
                      (case refreshAndGetProject env w1 of
                         (Inl e, w2) \<Rightarrow>
                           dispatch env anthropicRequest rest (token, payload, Some e) w2
                       | (Inr (token', project), w2) \<Rightarrow>
                           dispatch env anthropicRequest rest
                             (token', payload\<lparr>p_project := project\<rparr>, lastError) w2)
                    else if status = 429 then
                      dispatch env anthropicRequest rest
                        (token, payload, Some (JsError (''Rate limited: '' @ errorText))) w1
                    else if status \<ge> 400 then
                      dispatch env anthropicRequest rest
                        (token, payload,
                         Some (JsError (''API error '' @ showNat status @ '': '' @ errorText))) w1
                    else
                      dispatch env anthropicRequest rest
                        (token, payload, Some (JsError BODY_ALREADY_READ)) w1)
             else
               (case parsed of
                  Inl msg \<Rightarrow>
                    dispatch env anthropicRequest rest (token, payload, Some (JsError msg)) w1
                | Inr d \<Rightarrow>
                    (case convertGoogleToAnthropic (randomBytesHex env) d
                            (req_model anthropicRequest) (draws w1) of
                       (converted, k) \<Rightarrow> (Inr converted, w1\<lparr>draws := k\<rparr>))))"

text \<open>
  \<open>sendMessage\<close>. \<open>getProject\<close> catches whatever its body throws, so the \<open>catch\<close> around
  the first \<open>getProject(token)\<close> is never entered.
\<close>

definition sendMessage ::
  "environment \<Rightarrow> anthropicRequest \<Rightarrow> world \<Rightarrow> (jsError + anthropicResponse) \<times> world"
where
  "sendMessage env anthropicRequest w =
     (let w1 = logged GetToken w
      in case getTokenResult env (history w) of
           Inl msg \<Rightarrow> (Inl (JsError msg), w1)
         | Inr token \<Rightarrow>
             (case getProject env token w1 of
                (project, w2) \<Rightarrow>
                  (case buildCloudCodeRequest env anthropicRequest project w2 of
                     (payload, w3) \<Rightarrow>
                       dispatch env anthropicRequest ANTIGRAVITY_ENDPOINT_FALLBACKS
                         (token, payload, None) w3)))"

text \<open>
  \<open>sendMessageStream\<close> awaits the full response first; when that throws, the generator
  throws before it yields anything.
\<close>

definition sendMessageStream ::
  "environment \<Rightarrow> anthropicRequest \<Rightarrow> world \<Rightarrow> (jsError + streamEvent list) \<times> world"
where
  "sendMessageStream env anthropicRequest w =
     (case sendMessage env anthropicRequest w of
        (Inl e, w') \<Rightarrow> (Inl e, w')
      | (Inr fullResponse, w') \<Rightarrow> (Inr (streamEvents fullResponse), w'))"

section \<open>Observations used in the statements\<close>

text \<open>
  On the recorded calls: the number of refresh calls, the content calls with their host,
  token and payload project, and the discovery calls.
\<close>

definition refreshCount :: "effect list \<Rightarrow> nat" where
  "refreshCount h = length (filter (\<lambda>e. e = RefreshToken) h)"

definition generateCalls :: "effect list \<Rightarrow> (string \<times> string \<times> string) list" where
  "generateCalls h = [(endpoint, token, p_project pl). GenerateContent endpoint token pl \<leftarrow> h]"

definition discoveryCalls :: "effect list \<Rightarrow> (string \<times> string) list" where
  "discoveryCalls h = [(endpoint, token). LoadCodeAssist endpoint token \<leftarrow> h]"

text \<open>
  On a stream: the \<open>content_block_start\<close> a list of blocks calls for, in order; the
  \<open>content_block_start\<close> events of a sequence with their indices; and that every one of
  them is followed by a \<open>content_block_stop\<close> with its index.
\<close>

fun startsOf :: "contentBlock list \<Rightarrow> startBlock list" where
  "startsOf [] = []"
| "startsOf (TextBlock t # rest) = StartText # startsOf rest"
| "startsOf (ToolUseBlock tid name inp # rest) = StartToolUse tid name # startsOf rest"
| "startsOf (block # rest) = startsOf rest"

definition starts :: "streamEvent list \<Rightarrow> (nat \<times> startBlock) list" where
  "starts evs = [(k, b). ContentBlockStart k b \<leftarrow> evs]"

definition matched :: "streamEvent list \<Rightarrow> bool" where
  "matched evs =
     (\<forall>pre post k b. evs = pre @ ContentBlockStart k b # post \<longrightarrow> ContentBlockStop k \<in> set post)"

text \<open>
  The keys one entry of a schema object contributes to \<open>keywordKeys\<close>, and that a list of
  keys holds no denylisted one.
\<close>

definition entryKeys :: "string \<times> json \<Rightarrow> string list" where
  "entryKeys e =
     (case e of (k, v) \<Rightarrow> k #
       (if k = ''properties'' then
          (case v of JObj ps \<Rightarrow> concat (map (\<lambda>(pk, pv). keywordKeys pv) ps) | _ \<Rightarrow> [])
        else if k = ''items'' then
          (case v of JArr xs \<Rightarrow> concat (map keywordKeys xs) | _ \<Rightarrow> keywordKeys v)
        else keywordKeys v))"

definition allowed :: "string list \<Rightarrow> bool" where
  "allowed ks = (set ks \<inter> set UNSUPPORTED_FIELDS = {})"

text \<open>
  A backend part that becomes a frontend block: text that is not thought-marked, or a
  function call.
\<close>

fun usable :: "part \<Rightarrow> bool" where
  "usable (TextPart t thought) = (\<not> thought)"
| "usable (FunctionCallPart fc) = True"
| "usable p = False"

text \<open>
  Whether a discovery response gives a project: it is ok and holds a non-empty string or
  an object with a non-empty \<open>id\<close>. The status of a response, if there is one.
\<close>

fun yieldsProject :: "projectField fetched \<Rightarrow> bool" where
  "yieldsProject (Response status bodyText (Inr (ProjectString str))) = (ok status \<and> str \<noteq> [])"
| "yieldsProject (Response status bodyText (Inr (ProjectObject (Some pid)))) = (ok status \<and> pid \<noteq> [])"
| "yieldsProject r = False"

fun statusOf :: "'a fetched \<Rightarrow> nat option" where
  "statusOf (FetchRejected msg) = None"
| "statusOf (Response status bodyText parsed) = Some status"

section \<open>Sample inputs\<close>

definition sampleResponse :: anthropicResponse where
  "sampleResponse =
     \<lparr>resp_id = ''msg_1'', resp_type = ''message'', resp_role = ''assistant'',
      resp_content =
        [ToolUseBlock (Some ''toolu_1'') (Some ''search'') (Some (JObj [(''q'', JStr ''x'')])),
         TextBlock ''The quick brown fox jumps over the lazy dog''],
      resp_model = Some ''claude-sonnet-4-5'', resp_stop_reason = ''tool_use'',
      resp_stop_sequence = None, resp_input_tokens = 3, resp_output_tokens = 9\<rparr>"

text \<open>
  A tool schema with a parameter named \<open>pattern\<close> and a tuple-typed parameter
  (\<open>prefixItems\<close>, JSON Schema 2020-12).
\<close>

definition sampleSchema :: json where
  "sampleSchema =
     JObj [(''type'', JStr ''object''),
           (''properties'',
            JObj [(''pattern'', JObj [(''type'', JStr ''string''), (''minLength'', JNum 1)]),
                  (''range'',
                   JObj [(''type'', JStr ''array''),
                         (''prefixItems'',
                          JArr [JObj [(''type'', JStr ''integer''), (''minimum'', JNum 0)],
                                JObj [(''type'', JStr ''integer'')]])])]),
           (''required'', JArr [JStr ''pattern'']),
           (''additionalProperties'', JBool False)]"

text \<open>A backend response holding the given parts in its first candidate.\<close>

definition responseWith :: "part list \<Rightarrow> googleResponse" where
  "responseWith parts =
     Wrapped \<lparr>rb_candidates =
                Some [\<lparr>cand_content = Some \<lparr>cc_parts = Some parts\<rparr>,
                       cand_finishReason = Some ''STOP''\<rparr>],
              rb_usageMetadata =
                Some \<lparr>promptTokenCount = Some 12, candidatesTokenCount = None\<rparr>\<rparr>"

definition sampleHex :: "nat \<Rightarrow> nat \<Rightarrow> string" where
  "sampleHex k n = replicate (2 * n) (digitChar (k mod 10))"

text \<open>
  A request with two tools, the second without a name anywhere, and a conversation that
  holds a thinking block, a tool call and its result.
\<close>

definition sampleRequest :: anthropicRequest where
  "sampleRequest =
     \<lparr>req_model = Some ''Claude-Sonnet-4-5'',
      req_messages =
        [\<lparr>msg_role = ''user'', msg_content = ContentString ''weather in Paris?''\<rparr>,
         \<lparr>msg_role = ''assistant'',
          msg_content =
            ContentBlocks
              [ThinkingBlock ''I should call the tool'',
               ToolUseBlock (Some ''toolu_01A'') (Some ''get_weather'')
                 (Some (JObj [(''city'', JStr ''Paris'')]))]\<rparr>,
         \<lparr>msg_role = ''user'',
          msg_content = ContentBlocks [ToolResultBlock (Some ''toolu_01A'') (ResultString ''sunny'')]\<rparr>],
      req_system = None,
      req_max_tokens = Some 4096,
      req_temperature = None,
      req_top_p = None,
      req_top_k = None,
      req_stop_sequences = None,
      req_tools =
        Some [\<lparr>tool_name = Some (NameString ''get weather (v2)!''),
                tool_description = Some ''Weather'',
                tool_input_schema = Some sampleSchema, tool_function = None,
                tool_custom = None, tool_parameters = None\<rparr>,
              \<lparr>tool_name = None, tool_description = None, tool_input_schema = None,
                tool_function = None, tool_custom = None, tool_parameters = None\<rparr>]\<rparr>"

text \<open>
  The same request with the tools \<open>[{"name": []}, {"name": [], "function": {"name": "f"}}]\<close>:
  the name of each is the empty array. (The server checks of a request body only that
  \<open>messages\<close> is an array, so these tools reach the converter.)
\<close>

definition arrayNameRequest :: anthropicRequest where
  "arrayNameRequest =
     sampleRequest
       \<lparr>req_tools :=
          Some [\<lparr>tool_name = Some (NameOther True []), tool_description = None,
                  tool_input_schema = None, tool_function = None,
                  tool_custom = None, tool_parameters = None\<rparr>,
                \<lparr>tool_name = Some (NameOther True []), tool_description = None,
                  tool_input_schema = None,
                  tool_function =
                    Some \<lparr>fn_name = Some (NameString ''f''), fn_description = None,
                          fn_input_schema = None, fn_parameters = None\<rparr>,
                  tool_custom = None, tool_parameters = None\<rparr>]\<rparr>"

text \<open>
  An environment in which discovery fails at every host, each in its own way, and the
  empty initial state.
\<close>

definition noProjectEnv :: environment where
  "noProjectEnv =
     \<lparr>getTokenResult = (\<lambda>h. Inr ''ya29.token''),
      refreshTokenResult = (\<lambda>h. None),
      loadCodeAssistResult =
        (\<lambda>h endpoint token.
           if endpoint = ANTIGRAVITY_ENDPOINT_DAILY then FetchRejected ''fetch failed''
           else if endpoint = ANTIGRAVITY_ENDPOINT_AUTOPUSH
             then Response 403 (Inr ''forbidden'') (Inl ''Unexpected token'')
           else Response 200 (Inr ''{}'') (Inr ProjectMissing)),
      generateContentResult = (\<lambda>h endpoint token pl. FetchRejected ''fetch failed''),
      randomBytesHex = sampleHex,
      randomUUID = (\<lambda>k. showNat k),
      randomSession = (\<lambda>k. showNat k)\<rparr>"

definition emptyWorld :: world where
  "emptyWorld = \<lparr>cachedProject = None, history = [], draws = 0\<rparr>"

text \<open>
  A short request, and two environments. In the first the token in use has expired: every
  host answers 401 to it and answers the refreshed token with a text naming the host;
  discovery gives a project that depends on the token. In the second the first two hosts
  answer 429 and the third answers with a text.
\<close>

definition helloRequest :: anthropicRequest where
  "helloRequest =
     \<lparr>req_model = Some ''claude-sonnet-4-5'',
      req_messages = [\<lparr>msg_role = ''user'', msg_content = ContentString ''hi''\<rparr>],
      req_system = None,
      req_max_tokens = Some 4096,
      req_temperature = None,
      req_top_p = None,
      req_top_k = None,
      req_stop_sequences = None,
      req_tools = None\<rparr>"

definition expiredTokenEnv :: environment where
  "expiredTokenEnv =
     \<lparr>getTokenResult = (\<lambda>h. Inr (if RefreshToken \<in> set h then ''ya29.new'' else ''ya29.old'')),
      refreshTokenResult = (\<lambda>h. None),
      loadCodeAssistResult =
        (\<lambda>h endpoint token.
           Response 200 (Inr [])
             (Inr (ProjectString (if token = ''ya29.new'' then ''proj-new'' else ''proj-old'')))),
      generateContentResult =
        (\<lambda>h endpoint token pl.
           if token = ''ya29.new''
           then Response 200 (Inr []) (Inr (responseWith [TextPart endpoint False]))
           else Response 401 (Inr ''UNAUTHENTICATED'') (Inl BODY_ALREADY_READ)),
      randomBytesHex = sampleHex,
      randomUUID = (\<lambda>k. showNat k),
      randomSession = (\<lambda>k. showNat k)\<rparr>"

definition rateLimitedEnv :: environment where
  "rateLimitedEnv =
     \<lparr>getTokenResult = (\<lambda>h. Inr ''ya29.token''),
      refreshTokenResult = (\<lambda>h. None),
      loadCodeAssistResult = (\<lambda>h endpoint token. Response 200 (Inr []) (Inr (ProjectString ''proj-1''))),
      generateContentResult =
        (\<lambda>h endpoint token pl.
           if endpoint = ANTIGRAVITY_ENDPOINT_PROD
           then Response 200 (Inr []) (Inr (responseWith [TextPart ''Hello'' False]))
           else Response 429 (Inr ''RESOURCE_EXHAUSTED'') (Inl BODY_ALREADY_READ)),
      randomBytesHex = sampleHex,
      randomUUID = (\<lambda>k. showNat k),
      randomSession = (\<lambda>k. showNat k)\<rparr>"

text \<open>The payload built for the short request with the project \<open>proj-old\<close>.\<close>

definition samplePayload :: payload where
  "samplePayload = fst (buildCloudCodeRequest expiredTokenEnv helloRequest ''proj-old'' emptyWorld)"

section \<open>Properties of the Stream Synthesizer\<close>

lemma chunk_count_step: "0 < m \<Longrightarrow> Suc ((m - 20 + 19) div 20) = (m + 19) div (20::nat)"
proof (cases "20 \<le> m")
  case True
  then obtain d where m: "m = d + 20" by (metis le_add_diff_inverse2)
  show ?thesis unfolding m by simp
next
  case False
  assume "0 < m"
  with False have "(m + 19) div 20 = 1" by simp
  with False show ?thesis by simp
qed

lemma ceiling_twentieth: "\<lceil>real n / 20\<rceil> = int ((n + 19) div 20)"
proof (rule ceiling_unique)
  define z where "z = (n + 19) div 20"
  have a: "20 * z \<le> n + 19"
    unfolding z_def by simp
  have "(n + 19) mod 20 < 20" by simp
  then have b: "n + 19 < 20 * z + 20"
    unfolding z_def by (metis add.commute add_less_cancel_left mult_div_mod_eq)
  have "real (20 * z) \<le> real (n + 19)"
    using a by (simp only: of_nat_le_iff)
  then show "of_int (int ((n + 19) div 20)) - 1 < real n / 20"
    unfolding z_def [symmetric] by simp
  from b have "n \<le> 20 * z" by simp
  then have "real n \<le> real (20 * z)"
    by (simp only: of_nat_le_iff)
  then show "real n / 20 \<le> of_int (int ((n + 19) div 20))"
    unfolding z_def [symmetric] by simp
qed

lemma textChunks_step:
  "i < length t \<Longrightarrow>
   textChunks t i = take STREAMING_CHUNK_SIZE (drop i t) # textChunks t (i + STREAMING_CHUNK_SIZE)"
  by (subst textChunks.simps) simp

lemma textChunks_done: "\<not> i < length t \<Longrightarrow> textChunks t i = []"
  by (subst textChunks.simps) simp

lemma textChunks_length:
  "length (textChunks t i) = (length t - i + 19) div 20"
proof (induction t i rule: textChunks.induct)
  case (1 t i)
  show ?case
  proof (cases "i < length t")
    case True
    then have "length (textChunks t i) = Suc ((length t - i - 20 + 19) div 20)"
      using 1 [OF True] by (simp add: textChunks_step STREAMING_CHUNK_SIZE_def)
    also have "\<dots> = (length t - i + 19) div 20"
      using True by (intro chunk_count_step) simp
    finally show ?thesis .
  next
    case False
    then show ?thesis
      by (simp add: textChunks_done)
  qed
qed

lemma textChunks_concat: "concat (textChunks t i) = drop i t"
proof (induction t i rule: textChunks.induct)
  case (1 t i)
  show ?case
  proof (cases "i < length t")
    case True
    then have "concat (textChunks t i) =
        take STREAMING_CHUNK_SIZE (drop i t) @ drop (i + STREAMING_CHUNK_SIZE) t"
      using 1 [OF True] by (simp add: textChunks_step)
    also have "drop (i + STREAMING_CHUNK_SIZE) t = drop STREAMING_CHUNK_SIZE (drop i t)"
      by (simp add: add.commute)
    also have "take STREAMING_CHUNK_SIZE (drop i t) @ drop STREAMING_CHUNK_SIZE (drop i t) = drop i t"
      by (rule append_take_drop_id)
    finally show ?thesis .
  next
    case False
    then show ?thesis by (simp add: textChunks_done)
  qed
qed

lemma textDeltas_append: "textDeltas k (xs @ ys) = textDeltas k xs @ textDeltas k ys"
  by (simp add: textDeltas_def)

lemma textDeltas_Nil: "textDeltas k [] = []"
  by (simp add: textDeltas_def)

lemma textDeltas_Cons:
  "textDeltas k (e # evs) =
     (case e of
        ContentBlockDelta j d \<Rightarrow>
          (case d of TextDelta chunk \<Rightarrow> if j = k then [chunk] else [] | _ \<Rightarrow> [])
      | _ \<Rightarrow> [])
     @ textDeltas k evs"
  by (simp add: textDeltas_def split: streamEvent.splits delta.splits)

lemma textDeltas_chunks:
  "textDeltas k (map (\<lambda>chunk. ContentBlockDelta j (TextDelta chunk)) cs) = (if j = k then cs else [])"
  by (induction cs) (simp_all add: textDeltas_Cons textDeltas_Nil)

lemma textDeltas_below:
  "j < k \<Longrightarrow> textDeltas j (blockEvents bs k) = []"
  by (induction bs k rule: blockEvents.induct)
     (simp_all add: textDeltas_Cons textDeltas_Nil textDeltas_append textDeltas_chunks)

lemma textDeltas_block:
  "i < length (filter isStreamed bs) \<Longrightarrow> filter isStreamed bs ! i = TextBlock t \<Longrightarrow>
   textDeltas (k + i) (blockEvents bs k) = textChunks t 0"
proof (induction bs k arbitrary: i rule: blockEvents.induct)
  case (1 blockIndex)
  then show ?case by simp
next
  case (2 t' rest blockIndex)
  show ?case
  proof (cases i)
    case 0
    with 2 show ?thesis
      by (simp add: textDeltas_Cons textDeltas_Nil textDeltas_append textDeltas_chunks textDeltas_below)
  next
    case (Suc i')
    with 2 have "textDeltas (blockIndex + 1 + i') (blockEvents rest (blockIndex + 1)) = textChunks t 0"
      by simp
    with Suc show ?thesis
      by (simp add: textDeltas_Cons textDeltas_Nil textDeltas_append textDeltas_chunks)
  qed
next
  case (3 tid name inp rest blockIndex)
  show ?case
  proof (cases i)
    case 0
    with 3 show ?thesis by simp
  next
    case (Suc i')
    with 3 have "textDeltas (blockIndex + 1 + i') (blockEvents rest (blockIndex + 1)) = textChunks t 0"
      by simp
    with Suc show ?thesis
      by (simp add: textDeltas_Cons textDeltas_Nil textDeltas_append)
  qed
qed simp_all

lemma textDeltas_stream:
  "textDeltas i (streamEvents r) = textDeltas i (blockEvents (resp_content r) 0)"
  by (simp add: streamEvents_def textDeltas_Cons textDeltas_append textDeltas_Nil)

text \<open>
  Claim C4. Take the \<open>i\<close>-th block the stream emits (text and tool_use blocks, counted
  from 0 in their original order) and let it be a text block with text \<open>t\<close>. The text
  deltas the stream carries with index \<open>i\<close> are \<open>\<lceil>length t / STREAMING_CHUNK_SIZE\<rceil>\<close> in
  number, and their texts concatenated in emission order are \<open>t\<close>.
\<close>

theorem text_block_chunking:
  assumes "i < length (filter isStreamed (resp_content r))"
    and "filter isStreamed (resp_content r) ! i = TextBlock t"
  shows "int (length (textDeltas i (streamEvents r))) = \<lceil>real (length t) / real STREAMING_CHUNK_SIZE\<rceil>
       \<and> concat (textDeltas i (streamEvents r)) = t"
proof -
  from textDeltas_block [OF assms, of 0]
  have d: "textDeltas i (streamEvents r) = textChunks t 0"
    by (simp add: textDeltas_stream)
  have "int (length (textChunks t 0)) = \<lceil>real (length t) / real STREAMING_CHUNK_SIZE\<rceil>"
    by (simp add: textChunks_length ceiling_twentieth STREAMING_CHUNK_SIZE_def)
  moreover have "concat (textChunks t 0) = t"
    by (simp add: textChunks_concat)
  ultimately show ?thesis
    unfolding d by simp
qed

text \<open>
  The sample response holds a tool_use block and a text block of 43 characters: the text
  block is emitted with index 1, in three deltas.
\<close>

theorem text_block_chunking_witness:
  "filter isStreamed (resp_content sampleResponse) ! 1
     = TextBlock ''The quick brown fox jumps over the lazy dog''
   \<and> length (textDeltas 1 (streamEvents sampleResponse)) = 3
   \<and> concat (textDeltas 1 (streamEvents sampleResponse))
     = ''The quick brown fox jumps over the lazy dog''"
  using text_block_chunking [of 1 sampleResponse "''The quick brown fox jumps over the lazy dog''"]
  by (simp add: sampleResponse_def STREAMING_CHUNK_SIZE_def)

lemma starts_Nil: "starts [] = []"
  by (simp add: starts_def)

lemma starts_append: "starts (xs @ ys) = starts xs @ starts ys"
  by (simp add: starts_def)

lemma starts_Cons:
  "starts (e # evs) = (case e of ContentBlockStart k b \<Rightarrow> [(k, b)] | _ \<Rightarrow> []) @ starts evs"
  by (simp add: starts_def split: streamEvent.splits)

lemma starts_deltas: "starts (map (\<lambda>chunk. ContentBlockDelta j (TextDelta chunk)) cs) = []"
  by (induction cs) (simp_all add: starts_Cons starts_Nil)

lemma starts_blockEvents: "starts (blockEvents bs k) = enumerate k (startsOf bs)"
  by (induction bs k rule: blockEvents.induct)
     (simp_all add: starts_Cons starts_Nil starts_append starts_deltas)

lemma stopIndices_Nil: "stopIndices [] = []"
  by (simp add: stopIndices_def)

lemma stopIndices_append: "stopIndices (xs @ ys) = stopIndices xs @ stopIndices ys"
  by (simp add: stopIndices_def)

lemma stopIndices_Cons:
  "stopIndices (e # evs) = (case e of ContentBlockStop k \<Rightarrow> [k] | _ \<Rightarrow> []) @ stopIndices evs"
  by (simp add: stopIndices_def split: streamEvent.splits)

lemma stopIndices_deltas: "stopIndices (map (\<lambda>chunk. ContentBlockDelta j (TextDelta chunk)) cs) = []"
  by (induction cs) (simp_all add: stopIndices_Cons stopIndices_Nil)

lemma stopIndices_blockEvents: "stopIndices (blockEvents bs k) = [k..<k + length (startsOf bs)]"
  by (induction bs k rule: blockEvents.induct)
     (simp_all add: stopIndices_Cons stopIndices_Nil stopIndices_append stopIndices_deltas upt_rec)

lemma matched_Nil: "matched []"
  by (simp add: matched_def)

lemma matched_Cons_other:
  assumes "matched evs" and "\<And>k b. e \<noteq> ContentBlockStart k b"
  shows "matched (e # evs)"
  unfolding matched_def
proof (intro allI impI)
  fix pre post k b
  assume eq: "e # evs = pre @ ContentBlockStart k b # post"
  with assms(2) obtain pre' where "pre = e # pre'" and "evs = pre' @ ContentBlockStart k b # post"
    by (cases pre) auto
  with assms(1) show "ContentBlockStop k \<in> set post"
    by (auto simp: matched_def)
qed

lemma matched_Cons_start:
  assumes "matched evs" and "ContentBlockStop k \<in> set evs"
  shows "matched (ContentBlockStart k b # evs)"
  unfolding matched_def
proof (intro allI impI)
  fix pre post k' b'
  assume eq: "ContentBlockStart k b # evs = pre @ ContentBlockStart k' b' # post"
  show "ContentBlockStop k' \<in> set post"
  proof (cases pre)
    case Nil
    with eq assms(2) show ?thesis by simp
  next
    case (Cons e pre')
    with eq have "evs = pre' @ ContentBlockStart k' b' # post" by simp
    with assms(1) show ?thesis by (auto simp: matched_def)
  qed
qed

lemma matched_deltas:
  "matched evs \<Longrightarrow> matched (map (\<lambda>chunk. ContentBlockDelta j (TextDelta chunk)) cs @ evs)"
  by (induction cs) (simp_all add: matched_Cons_other)

lemma matched_blockEvents: "matched (blockEvents bs k @ [MessageDelta s q n, MessageStop])"
proof (induction bs k rule: blockEvents.induct)
  case (1 blockIndex)
  show ?case by (simp add: matched_Cons_other matched_Nil)
next
  case (2 t rest blockIndex)
  have "matched (ContentBlockStop blockIndex # blockEvents rest (blockIndex + 1) @ [MessageDelta s q n, MessageStop])"
    using 2 by (simp add: matched_Cons_other)
  then have "matched (map (\<lambda>chunk. ContentBlockDelta blockIndex (TextDelta chunk)) (textChunks t 0)
      @ ContentBlockStop blockIndex # blockEvents rest (blockIndex + 1) @ [MessageDelta s q n, MessageStop])"
    by (rule matched_deltas)
  then show ?case
    by (simp add: matched_Cons_start)
next
  case (3 tid name inp rest blockIndex)
  have "matched (ContentBlockStop blockIndex # blockEvents rest (blockIndex + 1) @ [MessageDelta s q n, MessageStop])"
    using 3 by (simp add: matched_Cons_other)
  then have "matched (ContentBlockDelta blockIndex (InputJsonDelta inp)
      # ContentBlockStop blockIndex # blockEvents rest (blockIndex + 1) @ [MessageDelta s q n, MessageStop])"
    by (simp add: matched_Cons_other)
  then show ?case
    by (simp add: matched_Cons_start)
qed simp_all

lemma no_message_events_in_blocks:
  "filter isMessageStart (blockEvents bs k) = [] \<and> filter isMessageStop (blockEvents bs k) = []"
  by (induction bs k rule: blockEvents.induct) simp_all

text \<open>
  Claim C3. The events synthesized from a response start with its one \<open>message_start\<close>
  and end with its one \<open>message_stop\<close>. The \<open>content_block_start\<close> events are those of the
  text and tool_use blocks in their original order, numbered 0, 1, 2, ... across both
  kinds, the \<open>content_block_stop\<close> events carry the same indices in the same order, and
  after every \<open>content_block_start\<close> a \<open>content_block_stop\<close> with its index follows.
\<close>

theorem stream_event_structure:
  "hd (streamEvents r) = MessageStart (resp_id r) (resp_model r) (resp_input_tokens r)
   \<and> filter isMessageStart (streamEvents r)
       = [MessageStart (resp_id r) (resp_model r) (resp_input_tokens r)]
   \<and> last (streamEvents r) = MessageStop
   \<and> filter isMessageStop (streamEvents r) = [MessageStop]
   \<and> starts (streamEvents r) = enumerate 0 (startsOf (resp_content r))
   \<and> stopIndices (streamEvents r) = [0..<length (startsOf (resp_content r))]
   \<and> (\<forall>pre post k b. streamEvents r = pre @ ContentBlockStart k b # post
          \<longrightarrow> ContentBlockStop k \<in> set post)"
proof -
  have "matched (streamEvents r)"
    unfolding streamEvents_def
    by (intro matched_Cons_other matched_blockEvents) simp
  then have m: "\<forall>pre post k b. streamEvents r = pre @ ContentBlockStart k b # post
      \<longrightarrow> ContentBlockStop k \<in> set post"
    by (simp add: matched_def)
  have s: "starts (streamEvents r) = enumerate 0 (startsOf (resp_content r))"
    unfolding streamEvents_def
    by (simp add: starts_Cons starts_append starts_Nil starts_blockEvents)
  have t: "stopIndices (streamEvents r) = [0..<length (startsOf (resp_content r))]"
    unfolding streamEvents_def
    by (simp add: stopIndices_Cons stopIndices_append stopIndices_Nil stopIndices_blockEvents)
  have f: "filter isMessageStart (streamEvents r)
        = [MessageStart (resp_id r) (resp_model r) (resp_input_tokens r)]"
    "filter isMessageStop (streamEvents r) = [MessageStop]"
    unfolding streamEvents_def
    by (simp_all add: no_message_events_in_blocks)
  have h: "hd (streamEvents r) = MessageStart (resp_id r) (resp_model r) (resp_input_tokens r)"
    "last (streamEvents r) = MessageStop"
    unfolding streamEvents_def by simp_all
  from h f s t m show ?thesis by simp
qed

text \<open>
  In the events of the sample response the text block starts at position 4 with index 1;
  its stop is among the events after it.
\<close>

theorem stream_event_structure_witness:
  "starts (streamEvents sampleResponse)
     = [(0, StartToolUse (Some ''toolu_1'') (Some ''search'')), (1, StartText)]
   \<and> stopIndices (streamEvents sampleResponse) = [0, 1]
   \<and> ContentBlockStop 1 \<in> set (drop 5 (streamEvents sampleResponse))"
proof -
  have split: "streamEvents sampleResponse
      = take 4 (streamEvents sampleResponse) @ ContentBlockStart 1 StartText
        # drop 5 (streamEvents sampleResponse)"
    by code_simp
  note all = stream_event_structure [of sampleResponse]
  from all split have "ContentBlockStop 1 \<in> set (drop 5 (streamEvents sampleResponse))"
    by blast
  moreover from all have "starts (streamEvents sampleResponse)
      = [(0, StartToolUse (Some ''toolu_1'') (Some ''search'')), (1, StartText)]"
    by (simp add: sampleResponse_def)
  moreover from all have "stopIndices (streamEvents sampleResponse) = [0, 1]"
    by (simp add: sampleResponse_def upt_rec)
  ultimately show ?thesis by simp
qed

section \<open>Properties of the Schema Sanitizer\<close>

lemma keywordKeys_obj: "keywordKeys (JObj kvs) = concat (map entryKeys kvs)"
  by (simp add: entryKeys_def cong: map_cong)

declare keywordKeys.simps(1) [simp del]

lemma allowed_Nil: "allowed []"
  by (simp add: allowed_def)

lemma allowed_Cons: "allowed (k # ks) = (k \<notin> set UNSUPPORTED_FIELDS \<and> allowed ks)"
  by (auto simp: allowed_def)

lemma allowed_concat: "allowed (concat xss) = (\<forall>xs \<in> set xss. allowed xs)"
  by (auto simp: allowed_def)

lemma allowed_obj: "allowed (keywordKeys (JObj kvs)) = (\<forall>e \<in> set kvs. allowed (entryKeys e))"
  unfolding keywordKeys_obj by (simp add: allowed_concat)

lemma set_update_subset: "set (AList.update k v al) \<subseteq> insert (k, v) (set al)"
  by (induction al) auto

lemma allowed_setProp:
  assumes "\<forall>e \<in> set obj. allowed (entryKeys e)" and "allowed (entryKeys (k, v))"
  shows "\<forall>e \<in> set (setProp k v obj). allowed (entryKeys e)"
  using assms set_update_subset [of k v obj] by (auto simp: setProp_def)

lemma props_setProp:
  assumes "\<forall>e \<in> set obj. allowed (keywordKeys (snd e))" and "allowed (keywordKeys v)"
  shows "\<forall>e \<in> set (setProp k v obj). allowed (keywordKeys (snd e))"
  using assms set_update_subset [of k v obj] by (auto simp: setProp_def)

lemma properties_not_unsupported: "''properties'' \<notin> set UNSUPPORTED_FIELDS"
  by (simp add: UNSUPPORTED_FIELDS_def)

lemma items_not_unsupported: "''items'' \<notin> set UNSUPPORTED_FIELDS"
  by (simp add: UNSUPPORTED_FIELDS_def)

text \<open>The branches of the loop body, one equation each.\<close>

lemma sanitizeEntries_unsupported:
  assumes "key \<in> set UNSUPPORTED_FIELDS"
  shows "sanitizeEntries ((key, v) # rest) sanitized = sanitizeEntries rest sanitized"
  using assms by simp

lemma sanitizeEntries_properties:
  assumes "key \<notin> set UNSUPPORTED_FIELDS" and "key = ''properties'' \<and> truthy v \<and> typeofObject v"
  shows "sanitizeEntries ((key, v) # rest) sanitized =
   sanitizeEntries rest (setProp ''properties'' (JObj (sanitizeProperties (entries v) [])) sanitized)"
  using assms by simp

lemma sanitizeEntries_items_array:
  assumes "key \<notin> set UNSUPPORTED_FIELDS"
    and "key = ''items'' \<and> truthy v \<and> typeofObject v" and "isArray v"
  shows "sanitizeEntries ((key, v) # rest) sanitized =
   sanitizeEntries rest (setProp ''items'' (JArr (sanitizeItems (elements v))) sanitized)"
  using assms by simp

lemma sanitizeEntries_items_composed:
  assumes "key \<notin> set UNSUPPORTED_FIELDS"
    and "key = ''items'' \<and> truthy v \<and> typeofObject v" and "\<not> isArray v"
    and "fieldTruthy v ''anyOf'' \<or> fieldTruthy v ''allOf'' \<or> fieldTruthy v ''oneOf''"
  shows "sanitizeEntries ((key, v) # rest) sanitized =
   sanitizeEntries rest (setProp ''items'' (JObj []) sanitized)"
  using assms by auto

lemma sanitizeEntries_items_object:
  assumes "key \<notin> set UNSUPPORTED_FIELDS"
    and "key = ''items'' \<and> truthy v \<and> typeofObject v" and "\<not> isArray v"
    and "\<not> (fieldTruthy v ''anyOf'' \<or> fieldTruthy v ''allOf'' \<or> fieldTruthy v ''oneOf'')"
  shows "sanitizeEntries ((key, v) # rest) sanitized =
   sanitizeEntries rest (setProp ''items'' (sanitizeSchema v) sanitized)"
  using assms by simp

lemma sanitizeEntries_object:
  assumes "key \<notin> set UNSUPPORTED_FIELDS"
    and "\<not> (key = ''properties'' \<and> truthy v \<and> typeofObject v)"
    and "\<not> (key = ''items'' \<and> truthy v \<and> typeofObject v)"
    and "typeofObject v \<and> v \<noteq> JNull \<and> \<not> isArray v"
  shows "sanitizeEntries ((key, v) # rest) sanitized =
   sanitizeEntries rest (setProp key (sanitizeSchema v) sanitized)"
  using assms by (cases v) auto

lemma sanitizeEntries_other:
  assumes "key \<notin> set UNSUPPORTED_FIELDS"
    and "\<not> (key = ''properties'' \<and> truthy v \<and> typeofObject v)"
    and "\<not> (key = ''items'' \<and> truthy v \<and> typeofObject v)"
    and "\<not> (typeofObject v \<and> v \<noteq> JNull \<and> \<not> isArray v)"
  shows "sanitizeEntries ((key, v) # rest) sanitized = sanitizeEntries rest (setProp key v sanitized)"
  using assms by (cases v) auto

declare sanitizeEntries.simps(2) [simp del]

lemma sanitizeSchema_object:
  assumes "typeofObject v \<and> v \<noteq> JNull \<and> \<not> isArray v"
  shows "sanitizeSchema v = JObj (sanitizeEntries (entries v) [])"
  using assms by (cases v) (simp_all add: sanitizeSchema.simps)

lemma sanitize_allowed:
  "allowed (keywordKeys (sanitizeSchema schema))"
  "(\<forall>e \<in> set sanitized. allowed (entryKeys e)) \<Longrightarrow>
     (\<forall>e \<in> set (sanitizeEntries es sanitized). allowed (entryKeys e))"
  "(\<forall>e \<in> set props. allowed (keywordKeys (snd e))) \<Longrightarrow>
     (\<forall>e \<in> set (sanitizeProperties ps props). allowed (keywordKeys (snd e)))"
  "\<forall>x \<in> set (sanitizeItems xs). allowed (keywordKeys x)"
proof (induction schema and es sanitized and ps props and xs
    rule: sanitizeSchema_sanitizeEntries_sanitizeProperties_sanitizeItems.induct)
  case (1 schema)
  show ?case
  proof (cases "\<not> truthy schema \<or> \<not> typeofObject schema")
    case True
    then have "keywordKeys schema = []" by (cases schema) auto
    with True show ?thesis by (simp add: sanitizeSchema.simps allowed_Nil)
  next
    case False
    with 1 have "\<forall>e \<in> set (sanitizeEntries (entries schema) []). allowed (entryKeys e)" by simp
    with False show ?thesis by (simp add: allowed_obj sanitizeSchema.simps)
  qed
next
  case (2 sanitized)
  then show ?case by simp
next
  case (3 key v rest sanitized)
  note acc = "3.prems"
  show ?case
  proof (cases "key \<in> set UNSUPPORTED_FIELDS")
    case True
    from "3.IH"(1) [OF True acc] show ?thesis
      by (simp only: sanitizeEntries_unsupported [OF True])
  next
    case nu: False
    show ?thesis
    proof (cases "key = ''properties'' \<and> truthy v \<and> typeofObject v")
      case pr: True
      from "3.IH"(2) [OF nu pr]
      have "\<forall>e\<in>set (sanitizeProperties (entries v) []). allowed (keywordKeys (snd e))"
        by simp
      then have "allowed (entryKeys (''properties'', JObj (sanitizeProperties (entries v) [])))"
        by (auto simp: entryKeys_def properties_not_unsupported allowed_concat allowed_Cons)
      from "3.IH"(3) [OF nu pr allowed_setProp [OF acc this]] show ?thesis
        by (simp only: sanitizeEntries_properties [OF nu pr])
    next
      case np: False
      show ?thesis
      proof (cases "key = ''items'' \<and> truthy v \<and> typeofObject v")
        case it: True
        show ?thesis
        proof (cases "isArray v")
          case ar: True
          from "3.IH"(4) [OF nu np it ar]
          have "allowed (entryKeys (''items'', JArr (sanitizeItems (elements v))))"
            by (auto simp: entryKeys_def items_not_unsupported allowed_concat allowed_Cons)
          from "3.IH"(5) [OF nu np it ar allowed_setProp [OF acc this]] show ?thesis
            by (simp only: sanitizeEntries_items_array [OF nu it ar])
        next
          case na: False
          from it na have ob: "typeofObject v \<and> v \<noteq> JNull \<and> \<not> isArray v"
            by (cases v) simp_all
          show ?thesis
          proof (cases "fieldTruthy v ''anyOf'' \<or> fieldTruthy v ''allOf'' \<or> fieldTruthy v ''oneOf''")
            case c: True
            have "allowed (entryKeys (''items'', JObj []))"
              by (simp add: entryKeys_def items_not_unsupported keywordKeys_obj allowed_Cons allowed_Nil)
            from "3.IH"(6) [OF nu np it na c allowed_setProp [OF acc this]] show ?thesis
              by (simp only: sanitizeEntries_items_composed [OF nu it na c])
          next
            case c: False
            have "allowed (entryKeys (''items'', sanitizeSchema v))"
              using "3.IH"(7) [OF nu np it na c]
              by (simp add: sanitizeSchema_object [OF ob] entryKeys_def items_not_unsupported allowed_Cons)
            from "3.IH"(8) [OF nu np it na c allowed_setProp [OF acc this]] show ?thesis
              by (simp only: sanitizeEntries_items_object [OF nu it na c])
          qed
        qed
      next
        case ni: False
        show ?thesis
        proof (cases "typeofObject v \<and> v \<noteq> JNull \<and> \<not> isArray v")
          case ob: True
          from ob np ni have kk: "key \<noteq> ''properties''" "key \<noteq> ''items''"
            by (cases v; auto)+
          have "allowed (entryKeys (key, sanitizeSchema v))"
            using "3.IH"(9) [OF nu np ni ob] nu kk
            by (simp add: entryKeys_def allowed_Cons)
          from "3.IH"(10) [OF nu np ni ob allowed_setProp [OF acc this]] show ?thesis
            by (simp only: sanitizeEntries_object [OF nu np ni ob])
        next
          case no: False
          have "allowed (entryKeys (key, v))"
            using nu np ni no by (cases v) (simp_all add: entryKeys_def allowed_Cons allowed_Nil)
          from "3.IH"(11) [OF nu np ni no allowed_setProp [OF acc this]] show ?thesis
            by (simp only: sanitizeEntries_other [OF nu np ni no])
        qed
      qed
    qed
  qed
next
  case (4 props)
  then show ?case by simp
next
  case (5 propKey propValue rest props)
  from "5.IH"(2) [OF props_setProp [OF "5.prems" "5.IH"(1)]] show ?case by simp
next
  case 6
  show ?case by simp
next
  case (7 item rest)
  then show ?case by simp
qed

text \<open>
  Claim C2, as stated, fails: the sanitized sample schema still has the keys \<open>pattern\<close>
  (a property name) and \<open>minimum\<close> (inside the array under \<open>prefixItems\<close>, which is copied
  as it is), and both are denylisted.
\<close>

theorem sanitize_any_depth_counterexample:
  "sanitizeSchema sampleSchema =
     JObj [(''type'', JStr ''object''),
           (''properties'',
            JObj [(''pattern'', JObj [(''type'', JStr ''string'')]),
                  (''range'',
                   JObj [(''type'', JStr ''array''),
                         (''prefixItems'',
                          JArr [JObj [(''type'', JStr ''integer''), (''minimum'', JNum 0)],
                                JObj [(''type'', JStr ''integer'')]])])]),
           (''required'', JArr [JStr ''pattern''])]
   \<and> ''pattern'' \<in> set (keysAnyDepth (sanitizeSchema sampleSchema))
   \<and> ''minimum'' \<in> set (keysAnyDepth (sanitizeSchema sampleSchema))
   \<and> ''pattern'' \<in> set UNSUPPORTED_FIELDS
   \<and> ''minimum'' \<in> set UNSUPPORTED_FIELDS"
  by code_simp

text \<open>
  Claim C2, amended. For every input, no denylisted keyword is a key of the sanitized
  schema where a keyword stands: not of the returned object, and not of any schema nested
  in it through an object-valued field, through the values of \<open>properties\<close> or through
  \<open>items\<close>. (Property names and the contents of other arrays are not covered.)
\<close>

theorem sanitize_keyword_positions:
  "set (keywordKeys (sanitizeSchema schema)) \<inter> set UNSUPPORTED_FIELDS = {}"
  using sanitize_allowed(1) [of schema] by (simp add: allowed_def)

text \<open>On the sample schema the keys in keyword position are these six.\<close>

theorem sanitize_keyword_positions_witness:
  "keywordKeys (sanitizeSchema sampleSchema)
     = [''type'', ''properties'', ''type'', ''type'', ''prefixItems'', ''required'']
   \<and> set (keywordKeys (sanitizeSchema sampleSchema)) \<inter> set UNSUPPORTED_FIELDS = {}"
proof -
  have "keywordKeys (sanitizeSchema sampleSchema)
     = [''type'', ''properties'', ''type'', ''type'', ''prefixItems'', ''required'']"
    by code_simp
  with sanitize_keyword_positions [of sampleSchema] show ?thesis by simp
qed

section \<open>Properties of the Response Converter\<close>

lemma convertParts_unusable:
  "\<forall>p \<in> set parts. \<not> usable p \<Longrightarrow> convertParts rnd parts st = st"
  by (induction rnd parts st rule: convertParts.induct) simp_all

lemma convertGoogleToAnthropic_content:
  "resp_content (fst (convertGoogleToAnthropic rnd g model k))
     = (if length (fst (convertParts rnd (partsOf (firstCandidateOf (bodyOf g))) ([], 0, k))) > 0
        then fst (convertParts rnd (partsOf (firstCandidateOf (bodyOf g))) ([], 0, k))
        else [TextBlock []])"
  by (simp add: convertGoogleToAnthropic_def Let_def split: prod.splits)

text \<open>
  Claim C8. Whatever the backend response, the converted response has at least one
  content block; when no part of the first candidate is usable (none at all, or only
  thought-marked text and parts of other kinds), the content is one empty text block.
\<close>

theorem response_content_nonempty:
  "resp_content (fst (convertGoogleToAnthropic rnd g model k)) \<noteq> []
   \<and> ((\<forall>p \<in> set (partsOf (firstCandidateOf (bodyOf g))). \<not> usable p)
        \<longrightarrow> resp_content (fst (convertGoogleToAnthropic rnd g model k)) = [TextBlock []])"
proof -
  obtain content counter k' where c:
    "convertParts rnd (partsOf (firstCandidateOf (bodyOf g))) ([], 0, k) = (content, counter, k')"
    by (cases "convertParts rnd (partsOf (firstCandidateOf (bodyOf g))) ([], 0, k)") auto
  have r: "resp_content (fst (convertGoogleToAnthropic rnd g model k))
      = (if length content > 0 then content else [TextBlock []])"
    by (simp add: convertGoogleToAnthropic_content c)
  then have "resp_content (fst (convertGoogleToAnthropic rnd g model k)) \<noteq> []"
    by auto
  moreover have "resp_content (fst (convertGoogleToAnthropic rnd g model k)) = [TextBlock []]"
    if "\<forall>p \<in> set (partsOf (firstCandidateOf (bodyOf g))). \<not> usable p"
  proof -
    from convertParts_unusable [OF that] c have "content = []" by simp
    with r show ?thesis by simp
  qed
  ultimately show ?thesis by blast
qed

text \<open>
  A response whose parts are all thought-marked text, and a response with no candidates at
  all, both give the single empty text block.
\<close>

theorem response_content_nonempty_witness:
  "resp_content (fst (convertGoogleToAnthropic sampleHex
      (responseWith [TextPart ''let me think'' True, TextPart ''more thought'' True])
      (Some ''claude-sonnet-4-5'') 0)) = [TextBlock []]
   \<and> resp_content (fst (convertGoogleToAnthropic sampleHex
      (Unwrapped \<lparr>rb_candidates = None, rb_usageMetadata = None\<rparr>) None 0)) = [TextBlock []]"
proof -
  have "resp_content (fst (convertGoogleToAnthropic sampleHex
      (responseWith [TextPart ''let me think'' True, TextPart ''more thought'' True])
      (Some ''claude-sonnet-4-5'') 0)) = [TextBlock []]"
    using response_content_nonempty [of sampleHex
        "responseWith [TextPart ''let me think'' True, TextPart ''more thought'' True]"
        "Some ''claude-sonnet-4-5''" 0]
    by (simp add: responseWith_def bodyOf_def firstCandidateOf_def partsOf_def)
  moreover have "resp_content (fst (convertGoogleToAnthropic sampleHex
      (Unwrapped \<lparr>rb_candidates = None, rb_usageMetadata = None\<rparr>) None 0)) = [TextBlock []]"
    using response_content_nonempty [of sampleHex
        "Unwrapped \<lparr>rb_candidates = None, rb_usageMetadata = None\<rparr>" None 0]
    by (simp add: bodyOf_def firstCandidateOf_def partsOf_def)
  ultimately show ?thesis by simp
qed

text \<open>
  Claim C5. A tool_use block with a name, an object as input and an id (a non-empty
  string) is converted to backend parts, and a backend response whose first candidate
  holds exactly these parts is converted back. The result is one tool_use block with the
  same name and the same input; it carries the original id when the model is in the
  Claude-compatible family, and a generated id otherwise.
\<close>

theorem tool_use_round_trip:
  assumes "tid \<noteq> []"
    and "partsOf (firstCandidateOf (bodyOf g))
          = convertContentToParts
              (ContentBlocks [ToolUseBlock (Some tid) (Some name) (Some (JObj kvs))]) isClaudeModel"
  shows "resp_content (fst (convertGoogleToAnthropic rnd g model k))
          = [ToolUseBlock (if isClaudeModel then Some tid else Some (''toolu_'' @ rnd k 12))
               (Some name) (Some (JObj kvs))]"
  using assms by (simp add: convertGoogleToAnthropic_content convertContentToParts_def)

theorem tool_use_round_trip_witness:
  "resp_content (fst (convertGoogleToAnthropic sampleHex
      (responseWith (convertContentToParts
          (ContentBlocks [ToolUseBlock (Some ''toolu_01A'') (Some ''get_weather'')
                            (Some (JObj [(''city'', JStr ''Paris'')]))]) True))
      (Some ''claude-sonnet-4-5'') 0))
     = [ToolUseBlock (Some ''toolu_01A'') (Some ''get_weather'') (Some (JObj [(''city'', JStr ''Paris'')]))]
   \<and> resp_content (fst (convertGoogleToAnthropic sampleHex
      (responseWith (convertContentToParts
          (ContentBlocks [ToolUseBlock (Some ''toolu_01A'') (Some ''get_weather'')
                            (Some (JObj [(''city'', JStr ''Paris'')]))]) False))
      (Some ''gemini-3-pro'') 0))
     = [ToolUseBlock (Some ''toolu_000000000000000000000000'') (Some ''get_weather'')
          (Some (JObj [(''city'', JStr ''Paris'')]))]"
proof -
  have p: "partsOf (firstCandidateOf (bodyOf (responseWith parts))) = parts" for parts
    by (simp add: responseWith_def bodyOf_def firstCandidateOf_def partsOf_def)
  have "sampleHex 0 12 = ''000000000000000000000000''"
    by code_simp
  with tool_use_round_trip [of "''toolu_01A''" _ "''get_weather''" "[(''city'', JStr ''Paris'')]" True, OF _ p]
    tool_use_round_trip [of "''toolu_01A''" _ "''get_weather''" "[(''city'', JStr ''Paris'')]" False, OF _ p]
  show ?thesis by simp
qed

section \<open>Properties of the Request Builder\<close>

lemma nameChar_digit: "d < 10 \<Longrightarrow> nameChar (digitChar d)"
  by (simp add: nameChar_def digitChar_def Let_def)

lemma nameChar_underscore: "nameChar (CHR ''_'')"
  by (simp add: nameChar_def)

lemma showNat_digits: "\<forall>c \<in> set (showNat n). nameChar c"
proof (induction n rule: showNat.induct)
  case (1 n)
  show ?case
  proof (cases "n < 10")
    case True
    then have "showNat n = [digitChar n]" by (subst showNat.simps) simp
    with True show ?thesis by (simp add: nameChar_digit)
  next
    case False
    then have "showNat n = showNat (n div 10) @ [digitChar (n mod 10)]"
      by (subst showNat.simps) simp
    with 1 [OF False] show ?thesis by (simp add: nameChar_digit)
  qed
qed

lemma sanitizeName_length: "length (sanitizeName name) \<le> 64"
  by (simp add: sanitizeName_def)

lemma sanitizeName_chars: "\<forall>c \<in> set (sanitizeName name). nameChar c"
proof -
  have "\<forall>c \<in> set (map (\<lambda>c. if nameChar c then c else CHR ''_'') (stringOf name)). nameChar c"
    by (auto simp: nameChar_underscore)
  then show ?thesis
    unfolding sanitizeName_def by (meson in_set_takeD)
qed

lemma sanitizeName_empty_iff: "sanitizeName name = [] \<longleftrightarrow> stringOf name = []"
  by (simp add: sanitizeName_def)

lemma sanitizeName_clean:
  "\<forall>c \<in> set (stringOf name). nameChar c \<Longrightarrow> sanitizeName name = take 64 (stringOf name)"
  by (simp add: sanitizeName_def map_idI)

lemma placeholder_prefix_chars: "\<forall>c \<in> set ''tool-''. nameChar c"
  by (simp add: nameChar_def)

lemma placeholder_chars: "\<forall>c \<in> set (''tool-'' @ showNat idx). nameChar c"
  using showNat_digits [of idx] placeholder_prefix_chars by (simp only: set_append) blast

text \<open>
  The name chosen is the first truthy one among the three places; when that value is a
  string it is not empty, and when there is none it is the placeholder.
\<close>

lemma firstTruthyName_Some: "firstTruthyName xs = Some n \<Longrightarrow> truthyName (Some n)"
  by (induction xs) (auto split: if_splits)

lemma toolNameOf_string_nonempty:
  assumes "toolNameOf tool idx = NameString s"
  shows "s \<noteq> []"
proof (cases "firstTruthyName [tool_name tool, Option.bind (tool_function tool) fn_name,
                               Option.bind (tool_custom tool) fn_name]")
  case None
  with assms have "s = ''tool-'' @ showNat idx"
    by (simp only: toolNameOf_def option.case nameValue.inject)
  then show ?thesis by simp
next
  case (Some n)
  with assms have "n = NameString s"
    by (simp only: toolNameOf_def option.case)
  with firstTruthyName_Some [OF Some] show ?thesis by simp
qed

lemma toolNameOf_placeholder:
  assumes "\<not> truthyName (tool_name tool)"
    and "\<not> truthyName (Option.bind (tool_function tool) fn_name)"
    and "\<not> truthyName (Option.bind (tool_custom tool) fn_name)"
  shows "toolNameOf tool idx = NameString (''tool-'' @ showNat idx)"
  using assms by (simp add: toolNameOf_def)

text \<open>
  What holds of the name declared for every tool, whatever stands in its \<open>name\<close>: it is
  at most 64 characters long and made of ASCII letters, digits, underscore and hyphen
  only; it is empty exactly when \<open>String\<close> of the name chosen is, which does not happen
  when that name is a string; and a tool with no truthy name in any of the three places
  gets \<open>tool-<idx>\<close>, its position in the list, cut to 64 characters.
\<close>

lemma declared_name_bounds:
  assumes "req_tools req = Some tools" and "idx < length tools"
  shows "\<exists>fds. gr_tools (convertAnthropicToGoogle req) = Some fds
           \<and> length fds = length tools
           \<and> length (fd_name (fds ! idx)) \<le> 64
           \<and> (\<forall>c \<in> set (fd_name (fds ! idx)). nameChar c)
           \<and> (fd_name (fds ! idx) = [] \<longleftrightarrow> stringOf (toolNameOf (tools ! idx) idx) = [])
           \<and> ((\<exists>s. toolNameOf (tools ! idx) idx = NameString s) \<longrightarrow> fd_name (fds ! idx) \<noteq> [])
           \<and> (\<not> truthyName (tool_name (tools ! idx))
                \<and> \<not> truthyName (Option.bind (tool_function (tools ! idx)) fn_name)
                \<and> \<not> truthyName (Option.bind (tool_custom (tools ! idx)) fn_name)
               \<longrightarrow> fd_name (fds ! idx) = take 64 (''tool-'' @ showNat idx))"
proof -
  let ?fds = "map functionDeclarationOf (enumerate 0 tools)"
  let ?name = "toolNameOf (tools ! idx) idx"
  from assms have g: "gr_tools (convertAnthropicToGoogle req) = Some ?fds"
    by (auto simp: convertAnthropicToGoogle_def)
  from assms(2) have n: "fd_name (?fds ! idx) = sanitizeName ?name"
    by (simp add: nth_enumerate_eq functionDeclarationOf_def)
  have p: "fd_name (?fds ! idx) = take 64 (''tool-'' @ showNat idx)"
    if "\<not> truthyName (tool_name (tools ! idx))
        \<and> \<not> truthyName (Option.bind (tool_function (tools ! idx)) fn_name)
        \<and> \<not> truthyName (Option.bind (tool_custom (tools ! idx)) fn_name)"
  proof -
    from that have "?name = NameString (''tool-'' @ showNat idx)"
      by (simp add: toolNameOf_placeholder)
    with n sanitizeName_clean [of "NameString (''tool-'' @ showNat idx)"] placeholder_chars [of idx]
    show ?thesis by simp
  qed
  have s: "fd_name (?fds ! idx) \<noteq> []" if "\<exists>s. ?name = NameString s"
  proof -
    from that obtain s where e: "?name = NameString s" by blast
    with toolNameOf_string_nonempty [OF e] n show ?thesis
      by (simp add: sanitizeName_empty_iff)
  qed
  from g n p s show ?thesis
    using sanitizeName_length [of ?name] sanitizeName_chars [of ?name]
      sanitizeName_empty_iff [of ?name]
    by (intro exI [of _ ?fds]) simp
qed

text \<open>
  Claim C7, at a tool whose name is not a string. For the tools
  \<open>[{"name": []}, {"name": [], "function": {"name": "f"}}]\<close> the names declared to the backend
  are both the empty string, against the claim that the declared name of every tool is
  non-empty. The array \<open>[]\<close> is truthy, so \<open>||\<close> stops at it and neither the name under
  \<open>function\<close> nor the placeholder is used; \<open>String([])\<close> is the empty string, in which there
  is nothing to replace and nothing to cut. Without the \<open>name\<close>, the same tools are declared
  as \<open>tool-0\<close> and \<open>f\<close>.
\<close>

theorem array_name_declared_empty:
  "map_option (map fd_name) (gr_tools (convertAnthropicToGoogle arrayNameRequest)) = Some [[], []]
   \<and> map_option (map fd_name)
        (gr_tools (convertAnthropicToGoogle
           (arrayNameRequest
              \<lparr>req_tools := map_option (map (\<lambda>tool. tool\<lparr>tool_name := None\<rparr>))
                               (req_tools arrayNameRequest)\<rparr>)))
       = Some [''tool-0'', ''f'']"
proof -
  have z: "showNat 0 = ''0''"
    by code_simp
  show ?thesis
    by (simp add: arrayNameRequest_def convertAnthropicToGoogle_def functionDeclarationOf_def
        enumerate_simps toolNameOf_def sanitizeName_def nameChar_def z)
qed

section \<open>Properties of the Claude-compatible family\<close>

lemma includesStr_iff: "includesStr s sub = (\<exists>pre post. s = pre @ sub @ post)"
proof (induction s)
  case Nil
  then show ?case by auto
next
  case (Cons c cs)
  show ?case
  proof
    assume "includesStr (c # cs) sub"
    then consider "take (length sub) (c # cs) = sub" | "includesStr cs sub" by auto
    then show "\<exists>pre post. c # cs = pre @ sub @ post"
    proof cases
      case 1
      then have "c # cs = [] @ sub @ drop (length sub) (c # cs)"
        by (metis append_Nil append_take_drop_id)
      then show ?thesis by blast
    next
      case 2
      with Cons obtain pre post where "cs = pre @ sub @ post" by auto
      then have "c # cs = (c # pre) @ sub @ post" by simp
      then show ?thesis by blast
    qed
  next
    assume "\<exists>pre post. c # cs = pre @ sub @ post"
    then obtain pre post where e: "c # cs = pre @ sub @ post" by auto
    show "includesStr (c # cs) sub"
    proof (cases pre)
      case Nil
      with e have "take (length sub) (c # cs) = sub" by simp
      then show ?thesis by simp
    next
      case (Cons a pre')
      with e have "cs = pre' @ sub @ post" by simp
      with Cons.IH show ?thesis by auto
    qed
  qed
qed

lemma includes_lowered:
  "includesStr (toLowerCase s) sub = (\<exists>pre mid post. s = pre @ mid @ post \<and> toLowerCase mid = sub)"
proof
  assume "includesStr (toLowerCase s) sub"
  then obtain a b where "map toLowerChar s = a @ sub @ b"
    by (auto simp: includesStr_iff toLowerCase_def)
  then obtain pre rest where p: "s = pre @ rest" and "sub @ b = map toLowerChar rest"
    unfolding map_eq_append_conv by blast
  then obtain mid post where "rest = mid @ post" and "sub = map toLowerChar mid"
    unfolding append_eq_map_conv by blast
  with p have "s = pre @ mid @ post \<and> toLowerCase mid = sub"
    by (simp add: toLowerCase_def)
  then show "\<exists>pre mid post. s = pre @ mid @ post \<and> toLowerCase mid = sub"
    by blast
next
  assume "\<exists>pre mid post. s = pre @ mid @ post \<and> toLowerCase mid = sub"
  then obtain pre mid post where "s = pre @ mid @ post" and "toLowerCase mid = sub"
    by blast
  then have "toLowerCase s = toLowerCase pre @ sub @ toLowerCase post"
    by (auto simp: toLowerCase_def)
  then show "includesStr (toLowerCase s) sub"
    unfolding includesStr_iff by blast
qed

lemma isClaudeModelOf_model:
  "isClaudeModelOf (r\<lparr>req_model := m\<rparr>) = includesStr (toLowerCase (strOr m [])) ''claude''"
  by (simp add: isClaudeModelOf_def)

lemma not_claude_empty: "\<not> includesStr (toLowerCase []) ''claude''"
  by (simp add: toLowerCase_def)

lemma claude_is_claude: "includesStr (toLowerCase ''claude'') ''claude''"
  by code_simp

text \<open>
  Claim C10. A request is in the Claude-compatible family exactly when its model is a
  string that contains \<open>claude\<close> in some mix of upper and lower case; a request without a
  model is not. Nothing else of the model reaches the conversion: the converted request
  is the one obtained with the model \<open>claude\<close> for a request of the family and with no
  model at all otherwise, and the family flag is what the content conversion of every
  message is given.
\<close>

theorem claude_family_by_model_substring:
  "isClaudeModelOf req
     = (\<exists>pre mid post. req_model req = Some (pre @ mid @ post) \<and> toLowerCase mid = ''claude'')
   \<and> \<not> isClaudeModelOf (req\<lparr>req_model := None\<rparr>)
   \<and> convertAnthropicToGoogle req
     = convertAnthropicToGoogle
         (req\<lparr>req_model := if isClaudeModelOf req then Some ''claude'' else None\<rparr>)
   \<and> gr_contents (convertAnthropicToGoogle req)
     = map (\<lambda>msg. \<lparr>gc_role = convertRole (msg_role msg),
                    gc_parts = convertContentToParts (msg_content msg) (isClaudeModelOf req)\<rparr>)
         (req_messages req)"
proof -
  have a: "isClaudeModelOf req
     = (\<exists>pre mid post. req_model req = Some (pre @ mid @ post) \<and> toLowerCase mid = ''claude'')"
  proof (cases "req_model req")
    case None
    then show ?thesis by (simp add: isClaudeModelOf_def not_claude_empty)
  next
    case (Some m)
    show ?thesis
    proof (cases "m = []")
      case True
      with Some show ?thesis by (auto simp: isClaudeModelOf_def toLowerCase_def)
    next
      case False
      with Some show ?thesis by (simp add: isClaudeModelOf_def includes_lowered)
    qed
  qed
  have b: "\<not> isClaudeModelOf (req\<lparr>req_model := None\<rparr>)"
    by (simp add: isClaudeModelOf_model not_claude_empty)
  have same: "isClaudeModelOf (req\<lparr>req_model := if isClaudeModelOf req then Some ''claude'' else None\<rparr>)
      = isClaudeModelOf req"
    by (simp add: isClaudeModelOf_model not_claude_empty claude_is_claude)
  have c: "convertAnthropicToGoogle req
     = convertAnthropicToGoogle
         (req\<lparr>req_model := if isClaudeModelOf req then Some ''claude'' else None\<rparr>)"
    unfolding convertAnthropicToGoogle_def same
    by (simp add: generationConfigOf_def)
  have push: "pushMessages f msgs acc
      = acc @ map (\<lambda>msg. \<lparr>gc_role = convertRole (msg_role msg),
                          gc_parts = convertContentToParts (msg_content msg) f\<rparr>) msgs"
    for f msgs acc
    by (induction msgs arbitrary: acc) simp_all
  have d: "gr_contents (convertAnthropicToGoogle req)
     = map (\<lambda>msg. \<lparr>gc_role = convertRole (msg_role msg),
                    gc_parts = convertContentToParts (msg_content msg) (isClaudeModelOf req)\<rparr>)
         (req_messages req)"
    by (simp add: convertAnthropicToGoogle_def push)
  from a b c d show ?thesis by blast
qed

text \<open>
  The model of the sample request is \<open>Claude-Sonnet-4-5\<close>: the thinking block is dropped
  and both ids are attached. With the model \<open>gemini-3-pro\<close> the same conversation keeps
  the thinking block as a thought-marked part and attaches no id.
\<close>

theorem claude_family_by_model_substring_witness:
  "isClaudeModelOf sampleRequest
   \<and> map gc_parts (gr_contents (convertAnthropicToGoogle sampleRequest))
     = [[TextPart ''weather in Paris?'' False],
        [FunctionCallPart \<lparr>fc_name = Some ''get_weather'',
            fc_args = Some (JObj [(''city'', JStr ''Paris'')]), fc_id = Some ''toolu_01A''\<rparr>],
        [FunctionResponsePart \<lparr>fr_name = ''toolu_01A'',
            fr_response = Some (JObj [(''result'', JStr ''sunny'')]), fr_id = Some ''toolu_01A''\<rparr>]]
   \<and> map gc_parts (gr_contents (convertAnthropicToGoogle (sampleRequest\<lparr>req_model := Some ''gemini-3-pro''\<rparr>)))
     = [[TextPart ''weather in Paris?'' False],
        [TextPart ''I should call the tool'' True,
         FunctionCallPart \<lparr>fc_name = Some ''get_weather'',
            fc_args = Some (JObj [(''city'', JStr ''Paris'')]), fc_id = None\<rparr>],
        [FunctionResponsePart \<lparr>fr_name = ''toolu_01A'',
            fr_response = Some (JObj [(''result'', JStr ''sunny'')]), fr_id = None\<rparr>]]"
proof -
  have m: "req_model sampleRequest = Some ([] @ ''Claude'' @ ''-Sonnet-4-5'')"
    by (simp add: sampleRequest_def)
  have l: "toLowerCase ''Claude'' = ''claude''"
    by code_simp
  from claude_family_by_model_substring [of sampleRequest] m l
  have c: "isClaudeModelOf sampleRequest" by blast
  have g: "\<not> isClaudeModelOf (sampleRequest\<lparr>req_model := Some ''gemini-3-pro''\<rparr>)"
    by code_simp
  from claude_family_by_model_substring [of sampleRequest]
  have "gr_contents (convertAnthropicToGoogle sampleRequest)
      = map (\<lambda>msg. \<lparr>gc_role = convertRole (msg_role msg),
                     gc_parts = convertContentToParts (msg_content msg) (isClaudeModelOf sampleRequest)\<rparr>)
          (req_messages sampleRequest)"
    by blast
  with c have "map gc_parts (gr_contents (convertAnthropicToGoogle sampleRequest))
      = map (\<lambda>msg. convertContentToParts (msg_content msg) True) (req_messages sampleRequest)"
    by (simp add: comp_def)
  moreover from claude_family_by_model_substring [of "sampleRequest\<lparr>req_model := Some ''gemini-3-pro''\<rparr>"]
  have "gr_contents (convertAnthropicToGoogle (sampleRequest\<lparr>req_model := Some ''gemini-3-pro''\<rparr>))
      = map (\<lambda>msg. \<lparr>gc_role = convertRole (msg_role msg),
                     gc_parts = convertContentToParts (msg_content msg)
                       (isClaudeModelOf (sampleRequest\<lparr>req_model := Some ''gemini-3-pro''\<rparr>))\<rparr>)
          (req_messages (sampleRequest\<lparr>req_model := Some ''gemini-3-pro''\<rparr>))"
    by blast
  with g have "map gc_parts (gr_contents (convertAnthropicToGoogle (sampleRequest\<lparr>req_model := Some ''gemini-3-pro''\<rparr>)))
      = map (\<lambda>msg. convertContentToParts (msg_content msg) False) (req_messages sampleRequest)"
    by (simp add: comp_def)
  ultimately show ?thesis
    using c by (simp add: sampleRequest_def convertContentToParts_def)
qed

section \<open>Properties of the Project Resolver\<close>

lemma DEFAULT_PROJECT_ID_nonempty: "DEFAULT_PROJECT_ID \<noteq> []"
  by (simp add: DEFAULT_PROJECT_ID_def)

lemma refreshCount_append: "refreshCount (h @ h') = refreshCount h + refreshCount h'"
  by (simp add: refreshCount_def)

lemma generateCalls_append: "generateCalls (h @ h') = generateCalls h @ generateCalls h'"
  by (simp add: generateCalls_def)

text \<open>What one round of the discovery loop does, by the response it gets.\<close>

lemma discover_found_string:
  assumes "loadCodeAssistResult env (history w) endpoint token = Response status bodyText (Inr (ProjectString str))"
    and "ok status" and "str \<noteq> []"
  shows "discover env token (endpoint # rest) w
     = (str, (logged (LoadCodeAssist endpoint token) w)\<lparr>cachedProject := Some str\<rparr>)"
  using assms by (simp add: Let_def)

lemma discover_found_object:
  assumes "loadCodeAssistResult env (history w) endpoint token = Response status bodyText (Inr (ProjectObject (Some pid)))"
    and "ok status" and "pid \<noteq> []"
  shows "discover env token (endpoint # rest) w
     = (pid, (logged (LoadCodeAssist endpoint token) w)\<lparr>cachedProject := Some pid\<rparr>)"
  using assms by (simp add: Let_def)

lemma discover_next:
  assumes "\<not> yieldsProject (loadCodeAssistResult env (history w) endpoint token)"
  shows "discover env token (endpoint # rest) w
     = discover env token rest (logged (LoadCodeAssist endpoint token) w)"
proof (cases "loadCodeAssistResult env (history w) endpoint token")
  case (FetchRejected msg)
  then show ?thesis by (simp add: Let_def)
next
  case (Response status bodyText parsed)
  show ?thesis
  proof (cases parsed)
    case (Inl msg)
    with Response show ?thesis by (simp add: Let_def)
  next
    case (Inr field)
    with Response assms show ?thesis
      by (cases field rule: projectField.exhaust) (auto simp: Let_def split: option.splits)
  qed
qed

lemma discover_cases:
  obtains (found) p where "p \<noteq> []"
      and "discover env token (endpoint # rest) w
            = (p, (logged (LoadCodeAssist endpoint token) w)\<lparr>cachedProject := Some p\<rparr>)"
    | (advance) "discover env token (endpoint # rest) w
            = discover env token rest (logged (LoadCodeAssist endpoint token) w)"
proof (cases "yieldsProject (loadCodeAssistResult env (history w) endpoint token)")
  case False
  then show ?thesis using discover_next advance by blast
next
  case True
  then show ?thesis
    by (cases "loadCodeAssistResult env (history w) endpoint token" rule: yieldsProject.cases)
       (auto simp: Let_def intro: found)
qed

declare discover.simps(2) [simp del]

text \<open>
  Discovery always ends with its result cached; it calls \<open>loadCodeAssist\<close> on a prefix of
  the endpoints and does nothing else.
\<close>

lemma discover_result:
  "\<exists>n \<le> length endpoints.
     fst (discover env token endpoints w) \<noteq> []
     \<and> cachedProject (snd (discover env token endpoints w)) = Some (fst (discover env token endpoints w))
     \<and> draws (snd (discover env token endpoints w)) = draws w
     \<and> history (snd (discover env token endpoints w))
         = history w @ map (\<lambda>e. LoadCodeAssist e token) (take n endpoints)
     \<and> (endpoints \<noteq> [] \<longrightarrow> 0 < n)"
proof (induction endpoints arbitrary: w)
  case Nil
  show ?case by (simp add: DEFAULT_PROJECT_ID_nonempty)
next
  case (Cons endpoint rest)
  show ?case
  proof (cases rule: discover_cases [of env token endpoint rest w])
    case (found p)
    then show ?thesis
      by (intro exI [of _ 1]) (simp add: logged_def)
  next
    case advance
    from Cons [of "logged (LoadCodeAssist endpoint token) w"]
    obtain n where "n \<le> length rest"
      and "fst (discover env token rest (logged (LoadCodeAssist endpoint token) w)) \<noteq> []"
      and "cachedProject (snd (discover env token rest (logged (LoadCodeAssist endpoint token) w)))
            = Some (fst (discover env token rest (logged (LoadCodeAssist endpoint token) w)))"
      and "draws (snd (discover env token rest (logged (LoadCodeAssist endpoint token) w))) = draws w"
      and "history (snd (discover env token rest (logged (LoadCodeAssist endpoint token) w)))
            = history w @ LoadCodeAssist endpoint token # map (\<lambda>e. LoadCodeAssist e token) (take n rest)"
      by (auto simp: logged_def)
    with advance show ?thesis
      by (intro exI [of _ "Suc n"]) simp
  qed
qed

lemma discover_none:
  assumes "\<forall>h. \<forall>endpoint \<in> set endpoints. \<not> yieldsProject (loadCodeAssistResult env h endpoint token)"
  shows "fst (discover env token endpoints w) = DEFAULT_PROJECT_ID"
  using assms
proof (induction endpoints arbitrary: w)
  case Nil
  show ?case by simp
next
  case (Cons endpoint rest)
  then have "\<not> yieldsProject (loadCodeAssistResult env (history w) endpoint token)"
    by simp
  from discover_next [OF this] Cons show ?case by simp
qed

lemma getProject_cached:
  "cachedProject w = Some p \<Longrightarrow> p \<noteq> [] \<Longrightarrow> getProject env token w = (p, w)"
  by (simp add: getProject_def)

lemma getProject_uncached:
  "\<not> truthyStr (cachedProject w) \<Longrightarrow>
   getProject env token w = discover env token ANTIGRAVITY_ENDPOINT_FALLBACKS w"
  by (cases "cachedProject w") (simp_all add: getProject_def)

lemma getProject_result:
  "\<exists>n \<le> length ANTIGRAVITY_ENDPOINT_FALLBACKS.
     fst (getProject env token w) \<noteq> []
     \<and> cachedProject (snd (getProject env token w)) = Some (fst (getProject env token w))
     \<and> draws (snd (getProject env token w)) = draws w
     \<and> history (snd (getProject env token w))
         = history w @ map (\<lambda>e. LoadCodeAssist e token) (take n ANTIGRAVITY_ENDPOINT_FALLBACKS)
     \<and> (\<not> truthyStr (cachedProject w) \<longrightarrow> 0 < n)"
proof (cases "truthyStr (cachedProject w)")
  case True
  then obtain p where "cachedProject w = Some p" and "p \<noteq> []"
    by (cases "cachedProject w") auto
  then show ?thesis
    by (intro exI [of _ 0]) (simp add: getProject_cached)
next
  case False
  have "ANTIGRAVITY_ENDPOINT_FALLBACKS \<noteq> []"
    by (simp add: ANTIGRAVITY_ENDPOINT_FALLBACKS_def)
  with discover_result [of ANTIGRAVITY_ENDPOINT_FALLBACKS env token w] False show ?thesis
    by (simp add: getProject_uncached)
qed

text \<open>
  Claim C9. With nothing usable cached and no host yielding a project, whatever the
  earlier calls, the resolver returns the default project id and caches it. Whatever a
  resolve returns is cached, and a second resolve (with any token) returns the same id
  and leaves the state as it is, the record of calls included: it calls no host.
  \<open>clearProjectCache\<close> empties the cache whatever it holds, and the next resolve starts
  with a discovery call to the first host.
\<close>

theorem project_resolver_default_and_cache:
  "(\<not> truthyStr (cachedProject w)
      \<and> (\<forall>h. \<forall>endpoint \<in> set ANTIGRAVITY_ENDPOINT_FALLBACKS.
             \<not> yieldsProject (loadCodeAssistResult env h endpoint token))
     \<longrightarrow> fst (getProject env token w) = DEFAULT_PROJECT_ID
         \<and> cachedProject (snd (getProject env token w)) = Some DEFAULT_PROJECT_ID)
   \<and> cachedProject (snd (getProject env token w)) = Some (fst (getProject env token w))
   \<and> getProject env token2 (snd (getProject env token w)) = getProject env token w
   \<and> clearProjectCache w = w\<lparr>cachedProject := None\<rparr>
   \<and> take (Suc (length (history w))) (history (snd (getProject env token (clearProjectCache w))))
       = history w @ [LoadCodeAssist ANTIGRAVITY_ENDPOINT_DAILY token]"
proof -
  from getProject_result [of env token w]
  have c: "cachedProject (snd (getProject env token w)) = Some (fst (getProject env token w))"
    and ne: "fst (getProject env token w) \<noteq> []"
    by auto
  have a: "fst (getProject env token w) = DEFAULT_PROJECT_ID
         \<and> cachedProject (snd (getProject env token w)) = Some DEFAULT_PROJECT_ID"
    if "\<not> truthyStr (cachedProject w)"
      and "\<forall>h. \<forall>endpoint \<in> set ANTIGRAVITY_ENDPOINT_FALLBACKS.
             \<not> yieldsProject (loadCodeAssistResult env h endpoint token)"
    using that c discover_none [of ANTIGRAVITY_ENDPOINT_FALLBACKS env token w]
    by (simp add: getProject_uncached)
  have b: "getProject env token2 (snd (getProject env token w)) = getProject env token w"
    using getProject_cached [OF c ne, of env token2] by simp
  have "\<not> truthyStr (cachedProject (clearProjectCache w))"
    by (simp add: clearProjectCache_def)
  with getProject_result [of env token "clearProjectCache w"]
  obtain n where "0 < n" and "history (snd (getProject env token (clearProjectCache w)))
      = history w @ map (\<lambda>e. LoadCodeAssist e token) (take n ANTIGRAVITY_ENDPOINT_FALLBACKS)"
    by (auto simp: clearProjectCache_def)
  then have d: "take (Suc (length (history w))) (history (snd (getProject env token (clearProjectCache w))))
       = history w @ [LoadCodeAssist ANTIGRAVITY_ENDPOINT_DAILY token]"
    by (cases n) (simp_all add: ANTIGRAVITY_ENDPOINT_FALLBACKS_def)
  from a b c d show ?thesis
    by (simp add: clearProjectCache_def)
qed

text \<open>
  In the sample environment the first host rejects the call, the second answers 403 and
  the third answers with no project: the default is returned and cached after three
  discovery calls, and a second resolve changes nothing.
\<close>

theorem project_resolver_default_and_cache_witness:
  "fst (getProject noProjectEnv ''ya29.token'' emptyWorld) = DEFAULT_PROJECT_ID
   \<and> cachedProject (snd (getProject noProjectEnv ''ya29.token'' emptyWorld)) = Some DEFAULT_PROJECT_ID
   \<and> discoveryCalls (history (snd (getProject noProjectEnv ''ya29.token'' emptyWorld)))
       = [(ANTIGRAVITY_ENDPOINT_DAILY, ''ya29.token''),
          (ANTIGRAVITY_ENDPOINT_AUTOPUSH, ''ya29.token''),
          (ANTIGRAVITY_ENDPOINT_PROD, ''ya29.token'')]
   \<and> getProject noProjectEnv ''ya29.other'' (snd (getProject noProjectEnv ''ya29.token'' emptyWorld))
       = getProject noProjectEnv ''ya29.token'' emptyWorld"
proof -
  have e: "\<not> truthyStr (cachedProject emptyWorld)"
    by (simp add: emptyWorld_def)
  have n: "\<forall>h. \<forall>endpoint \<in> set ANTIGRAVITY_ENDPOINT_FALLBACKS.
      \<not> yieldsProject (loadCodeAssistResult noProjectEnv h endpoint ''ya29.token'')"
    by (simp add: noProjectEnv_def ANTIGRAVITY_ENDPOINT_FALLBACKS_def ANTIGRAVITY_ENDPOINT_DAILY_def
        ANTIGRAVITY_ENDPOINT_AUTOPUSH_def ANTIGRAVITY_ENDPOINT_PROD_def ok_def)
  have h: "discoveryCalls (history (snd (getProject noProjectEnv ''ya29.token'' emptyWorld)))
       = [(ANTIGRAVITY_ENDPOINT_DAILY, ''ya29.token''),
          (ANTIGRAVITY_ENDPOINT_AUTOPUSH, ''ya29.token''),
          (ANTIGRAVITY_ENDPOINT_PROD, ''ya29.token'')]"
    by code_simp
  from project_resolver_default_and_cache [of emptyWorld noProjectEnv "''ya29.token''" "''ya29.other''"] e n h
  show ?thesis by blast
qed

section \<open>Properties of the Endpoint Dispatcher\<close>

lemma endpoints_distinct:
  "ANTIGRAVITY_ENDPOINT_DAILY \<noteq> ANTIGRAVITY_ENDPOINT_AUTOPUSH"
  "ANTIGRAVITY_ENDPOINT_DAILY \<noteq> ANTIGRAVITY_ENDPOINT_PROD"
  "ANTIGRAVITY_ENDPOINT_AUTOPUSH \<noteq> ANTIGRAVITY_ENDPOINT_PROD"
  by (simp_all add: ANTIGRAVITY_ENDPOINT_DAILY_def ANTIGRAVITY_ENDPOINT_AUTOPUSH_def
      ANTIGRAVITY_ENDPOINT_PROD_def)

lemma refreshCount_discovery: "refreshCount (map (\<lambda>e. LoadCodeAssist e token) es) = 0"
  by (induction es) (simp_all add: refreshCount_def)

lemma generateCalls_discovery: "generateCalls (map (\<lambda>e. LoadCodeAssist e token) es) = []"
  by (induction es) (simp_all add: generateCalls_def)

lemma refreshCount_simps:
  "refreshCount [] = 0"
  "refreshCount (GetToken # h) = refreshCount h"
  "refreshCount (RefreshToken # h) = Suc (refreshCount h)"
  "refreshCount (LoadCodeAssist endpoint token # h) = refreshCount h"
  "refreshCount (GenerateContent endpoint token pl # h) = refreshCount h"
  by (simp_all add: refreshCount_def)

lemma generateCalls_simps:
  "generateCalls [] = []"
  "generateCalls (GetToken # h) = generateCalls h"
  "generateCalls (RefreshToken # h) = generateCalls h"
  "generateCalls (LoadCodeAssist endpoint token # h) = generateCalls h"
  "generateCalls (GenerateContent endpoint token pl # h) = (endpoint, token, p_project pl) # generateCalls h"
  by (simp_all add: generateCalls_def)

text \<open>What one round of the dispatch loop does, by the response it gets.\<close>

lemma dispatch_rate_limited:
  assumes "statusOf (generateContentResult env (history w) endpoint token payload) = Some 429"
  shows "\<exists>e. dispatch env req (endpoint # rest) (token, payload, lastError) w
     = dispatch env req rest (token, payload, Some e) (logged (GenerateContent endpoint token payload) w)"
proof (cases "generateContentResult env (history w) endpoint token payload")
  case (FetchRejected msg)
  with assms show ?thesis by simp
next
  case (Response status bodyText parsed)
  with assms have "status = 429" by simp
  with Response show ?thesis
    by (cases bodyText) (auto simp: Let_def ok_def)
qed

lemma dispatch_success:
  assumes "generateContentResult env (history w) endpoint token payload = Response status bodyText (Inr d)"
    and "ok status"
  shows "dispatch env req (endpoint # rest) (token, payload, lastError) w
     = (Inr (fst (convertGoogleToAnthropic (randomBytesHex env) d (req_model req) (draws w))),
        (logged (GenerateContent endpoint token payload) w)
          \<lparr>draws := snd (convertGoogleToAnthropic (randomBytesHex env) d (req_model req) (draws w))\<rparr>)"
  using assms by (simp add: Let_def logged_def case_prod_beta)

lemma dispatch_unauthorized:
  assumes "generateContentResult env (history w) endpoint token payload
            = Response 401 (Inr errorText) parsed"
    and "refreshAndGetProject env (logged (GenerateContent endpoint token payload) w)
            = (Inr (token', project'), w')"
  shows "dispatch env req (endpoint # rest) (token, payload, lastError) w
     = dispatch env req rest (token', payload\<lparr>p_project := project'\<rparr>, lastError) w'"
  using assms by (simp add: Let_def ok_def)

declare dispatch.simps(2) [simp del]

lemma refreshAndGetProject_success:
  assumes "refreshAndGetProject env w = (Inr (token', project'), w')"
  shows "cachedProject w' = Some project' \<and> draws w' = draws w
       \<and> (\<exists>n. 0 < n \<and> history w' = history w @ [RefreshToken, GetToken]
              @ map (\<lambda>e. LoadCodeAssist e token') (take n ANTIGRAVITY_ENDPOINT_FALLBACKS))"
proof -
  let ?w1 = "logged RefreshToken w"
  let ?w2 = "logged GetToken ?w1"
  from assms have r: "refreshTokenResult env (history w) = None"
    by (auto simp: refreshAndGetProject_def Let_def split: option.splits)
  with assms have t: "getTokenResult env (history ?w1) = Inr token'"
    by (auto simp: refreshAndGetProject_def Let_def case_prod_beta split: sum.splits)
  with assms r have g: "getProject env token' (clearProjectCache ?w2) = (project', w')"
    by (auto simp: refreshAndGetProject_def Let_def case_prod_beta)
  have "\<not> truthyStr (cachedProject (clearProjectCache ?w2))"
    by (simp add: clearProjectCache_def)
  with getProject_result [of env token' "clearProjectCache ?w2"] g show ?thesis
    by (auto simp: clearProjectCache_def logged_def)
qed

text \<open>
  Claim C6. The token is read, and the three hosts answer as follows whatever the token,
  the payload and the earlier calls: the first two with status 429, the third with an ok
  status and a body \<open>d\<close>. Then \<open>sendMessage\<close> returns the conversion of \<open>d\<close>, no refresh
  call is made, and the content calls go to the three hosts in order.
\<close>

theorem rate_limited_hosts_fall_through:
  assumes "getTokenResult env (history w) = Inr token"
    and "\<forall>h t pl. statusOf (generateContentResult env h ANTIGRAVITY_ENDPOINT_DAILY t pl) = Some 429"
    and "\<forall>h t pl. statusOf (generateContentResult env h ANTIGRAVITY_ENDPOINT_AUTOPUSH t pl) = Some 429"
    and "\<forall>h t pl. generateContentResult env h ANTIGRAVITY_ENDPOINT_PROD t pl
            = Response status bodyText (Inr d)"
    and "ok status"
  shows "fst (sendMessage env req w)
           = Inr (fst (convertGoogleToAnthropic (randomBytesHex env) d (req_model req) (draws w + 2)))
       \<and> refreshCount (history (snd (sendMessage env req w))) = refreshCount (history w)
       \<and> map fst (generateCalls (history (snd (sendMessage env req w))))
           = map fst (generateCalls (history w)) @ ANTIGRAVITY_ENDPOINT_FALLBACKS"
proof -
  let ?w1 = "logged GetToken w"
  obtain project w2 where gp: "getProject env token ?w1 = (project, w2)"
    by (cases "getProject env token ?w1") auto
  with getProject_result [of env token ?w1]
  obtain n where d2: "draws w2 = draws w"
    and h2: "history w2 = history w @ GetToken # map (\<lambda>e. LoadCodeAssist e token) (take n ANTIGRAVITY_ENDPOINT_FALLBACKS)"
    by (auto simp: logged_def)
  obtain payload w3 where b: "buildCloudCodeRequest env req project w2 = (payload, w3)"
    by (cases "buildCloudCodeRequest env req project w2") auto
  then have d3: "draws w3 = draws w + 2" and h3: "history w3 = history w2"
    using d2 by (auto simp: buildCloudCodeRequest_def Let_def)
  have s: "sendMessage env req w
      = dispatch env req ANTIGRAVITY_ENDPOINT_FALLBACKS (token, payload, None) w3"
    using assms(1) gp b by (simp add: sendMessage_def Let_def)
  let ?w4 = "logged (GenerateContent ANTIGRAVITY_ENDPOINT_DAILY token payload) w3"
  let ?w5 = "logged (GenerateContent ANTIGRAVITY_ENDPOINT_AUTOPUSH token payload) ?w4"
  let ?w6 = "logged (GenerateContent ANTIGRAVITY_ENDPOINT_PROD token payload) ?w5"
  from assms(2) dispatch_rate_limited [of env w3 ANTIGRAVITY_ENDPOINT_DAILY token payload]
  obtain e1 where s1: "dispatch env req ANTIGRAVITY_ENDPOINT_FALLBACKS (token, payload, None) w3
      = dispatch env req [ANTIGRAVITY_ENDPOINT_AUTOPUSH, ANTIGRAVITY_ENDPOINT_PROD]
          (token, payload, Some e1) ?w4"
    unfolding ANTIGRAVITY_ENDPOINT_FALLBACKS_def by blast
  from assms(3) dispatch_rate_limited [of env ?w4 ANTIGRAVITY_ENDPOINT_AUTOPUSH token payload]
  obtain e2 where s2: "dispatch env req [ANTIGRAVITY_ENDPOINT_AUTOPUSH, ANTIGRAVITY_ENDPOINT_PROD]
          (token, payload, Some e1) ?w4
      = dispatch env req [ANTIGRAVITY_ENDPOINT_PROD] (token, payload, Some e2) ?w5"
    by blast
  from assms(4) have "generateContentResult env (history ?w5) ANTIGRAVITY_ENDPOINT_PROD token payload
      = Response status bodyText (Inr d)"
    by blast
  from dispatch_success [OF this assms(5)]
  have s3: "dispatch env req [ANTIGRAVITY_ENDPOINT_PROD] (token, payload, Some e2) ?w5
      = (Inr (fst (convertGoogleToAnthropic (randomBytesHex env) d (req_model req) (draws ?w5))),
         ?w6\<lparr>draws := snd (convertGoogleToAnthropic (randomBytesHex env) d (req_model req) (draws ?w5))\<rparr>)" .
  have d5: "draws ?w5 = draws w + 2"
    using d3 by (simp add: logged_def)
  have h6: "history ?w6 = history w @ GetToken
      # map (\<lambda>e. LoadCodeAssist e token) (take n ANTIGRAVITY_ENDPOINT_FALLBACKS)
      @ [GenerateContent ANTIGRAVITY_ENDPOINT_DAILY token payload,
         GenerateContent ANTIGRAVITY_ENDPOINT_AUTOPUSH token payload,
         GenerateContent ANTIGRAVITY_ENDPOINT_PROD token payload]"
    using h2 h3 by (simp add: logged_def)
  from s s1 s2 s3 d5 have r: "sendMessage env req w
      = (Inr (fst (convertGoogleToAnthropic (randomBytesHex env) d (req_model req) (draws w + 2))),
         ?w6\<lparr>draws := snd (convertGoogleToAnthropic (randomBytesHex env) d (req_model req) (draws w + 2))\<rparr>)"
    by simp
  have "refreshCount (history ?w6) = refreshCount (history w)"
    unfolding h6 by (simp add: refreshCount_append refreshCount_simps refreshCount_discovery)
  moreover have "map fst (generateCalls (history ?w6))
      = map fst (generateCalls (history w)) @ ANTIGRAVITY_ENDPOINT_FALLBACKS"
    unfolding h6
    by (simp add: generateCalls_append generateCalls_simps generateCalls_discovery
        ANTIGRAVITY_ENDPOINT_FALLBACKS_def)
  ultimately show ?thesis
    unfolding r by simp
qed

text \<open>
  In the sample environment the first two hosts answer 429 and the third answers with the
  text \<open>Hello\<close>.
\<close>

theorem rate_limited_hosts_fall_through_witness:
  "map_sum id resp_content (fst (sendMessage rateLimitedEnv helloRequest emptyWorld))
     = Inr [TextBlock ''Hello'']
   \<and> refreshCount (history (snd (sendMessage rateLimitedEnv helloRequest emptyWorld))) = 0
   \<and> map fst (generateCalls (history (snd (sendMessage rateLimitedEnv helloRequest emptyWorld))))
     = [ANTIGRAVITY_ENDPOINT_DAILY, ANTIGRAVITY_ENDPOINT_AUTOPUSH, ANTIGRAVITY_ENDPOINT_PROD]"
proof -
  have t: "getTokenResult rateLimitedEnv (history emptyWorld) = Inr ''ya29.token''"
    by (simp add: rateLimitedEnv_def)
  have a: "\<forall>h t pl. statusOf (generateContentResult rateLimitedEnv h ANTIGRAVITY_ENDPOINT_DAILY t pl) = Some 429"
    "\<forall>h t pl. statusOf (generateContentResult rateLimitedEnv h ANTIGRAVITY_ENDPOINT_AUTOPUSH t pl) = Some 429"
    by (simp_all add: rateLimitedEnv_def endpoints_distinct)
  have p: "\<forall>h t pl. generateContentResult rateLimitedEnv h ANTIGRAVITY_ENDPOINT_PROD t pl
      = Response 200 (Inr []) (Inr (responseWith [TextPart ''Hello'' False]))"
    by (simp add: rateLimitedEnv_def)
  have k: "ok 200"
    by (simp add: ok_def)
  have c: "resp_content (fst (convertGoogleToAnthropic sampleHex
      (responseWith [TextPart ''Hello'' False]) m n)) = [TextBlock ''Hello'']" for m n
    by (simp add: convertGoogleToAnthropic_content responseWith_def bodyOf_def
        firstCandidateOf_def partsOf_def)
  have r: "randomBytesHex rateLimitedEnv = sampleHex"
    by (simp add: rateLimitedEnv_def)
  from rate_limited_hosts_fall_through [OF t a p k, of helloRequest] c r
  show ?thesis
    by (simp add: emptyWorld_def refreshCount_simps generateCalls_simps
        ANTIGRAVITY_ENDPOINT_FALLBACKS_def)
qed

text \<open>
  Claim C1, as stated, fails. In the sample environment the token in use has expired and
  every host, the first included, answers the refreshed token with success. The first host
  answers 401 and is not called again: the second content call goes to the second host,
  whose answer is returned.
\<close>

theorem same_host_retry_counterexample:
  "generateCalls (history (snd (sendMessage expiredTokenEnv helloRequest emptyWorld)))
     = [(ANTIGRAVITY_ENDPOINT_DAILY, ''ya29.old'', ''proj-old''),
        (ANTIGRAVITY_ENDPOINT_AUTOPUSH, ''ya29.new'', ''proj-new'')]
   \<and> map_sum id resp_content (fst (sendMessage expiredTokenEnv helloRequest emptyWorld))
     = Inr [TextBlock ANTIGRAVITY_ENDPOINT_AUTOPUSH]
   \<and> statusOf (generateContentResult expiredTokenEnv
        (history (snd (sendMessage expiredTokenEnv helloRequest emptyWorld)))
        ANTIGRAVITY_ENDPOINT_DAILY ''ya29.new'' (samplePayload\<lparr>p_project := ''proj-new''\<rparr>)) = Some 200"
  by (simp add: sendMessage_def expiredTokenEnv_def emptyWorld_def getProject_def logged_def
      ANTIGRAVITY_ENDPOINT_FALLBACKS_def ok_def buildCloudCodeRequest_def Let_def
      refreshAndGetProject_def clearProjectCache_def convertGoogleToAnthropic_content
      responseWith_def bodyOf_def firstCandidateOf_def partsOf_def generateCalls_def
      discover.simps dispatch.simps case_prod_beta)

text \<open>
  Claim C1, amended. A host that is not the last answers 401 and its body text is read;
  the refresh that follows succeeds, giving the token \<open>token'\<close> and the project
  \<open>project'\<close>. Then exactly one refresh call is made, followed by one read of the token
  and by discovery calls with the new token; the re-resolved project is the cached one
  and is put into the payload; and the loop goes on with the next host, sending the new
  token and the updated payload. When that host answers with an ok status and a body
  \<open>d\<close>, its conversion is returned, the content calls of this pass are the two made (the
  first host once, then the next), and exactly one refresh call has occurred.
\<close>

theorem unauthorized_refreshes_and_advances:
  assumes "generateContentResult env (history w) endpoint token payload
            = Response 401 (Inr errorText) parsed"
    and "refreshAndGetProject env (logged (GenerateContent endpoint token payload) w)
            = (Inr (token', project'), w')"
  shows "dispatch env req (endpoint # nxt # rest) (token, payload, lastError) w
           = dispatch env req (nxt # rest) (token', payload\<lparr>p_project := project'\<rparr>, lastError) w'
       \<and> (\<exists>n. 0 < n \<and> history w' = history w
              @ [GenerateContent endpoint token payload, RefreshToken, GetToken]
              @ map (\<lambda>e. LoadCodeAssist e token') (take n ANTIGRAVITY_ENDPOINT_FALLBACKS))
       \<and> cachedProject w' = Some project'
       \<and> (\<forall>status bodyText d.
             generateContentResult env (history w') nxt token' (payload\<lparr>p_project := project'\<rparr>)
               = Response status bodyText (Inr d) \<and> ok status
             \<longrightarrow> fst (dispatch env req (endpoint # nxt # rest) (token, payload, lastError) w)
                   = Inr (fst (convertGoogleToAnthropic (randomBytesHex env) d (req_model req) (draws w)))
                 \<and> generateCalls (history (snd (dispatch env req (endpoint # nxt # rest)
                                                  (token, payload, lastError) w)))
                   = generateCalls (history w)
                     @ [(endpoint, token, p_project payload), (nxt, token', project')]
                 \<and> refreshCount (history (snd (dispatch env req (endpoint # nxt # rest)
                                                  (token, payload, lastError) w)))
                   = refreshCount (history w) + 1)"
proof -
  note step = dispatch_unauthorized [OF assms, of req "nxt # rest" lastError]
  from refreshAndGetProject_success [OF assms(2)]
  obtain n where c: "cachedProject w' = Some project'"
    and d: "draws w' = draws w"
    and n: "0 < n"
    and h: "history w' = history w
              @ [GenerateContent endpoint token payload, RefreshToken, GetToken]
              @ map (\<lambda>e. LoadCodeAssist e token') (take n ANTIGRAVITY_ENDPOINT_FALLBACKS)"
    by (auto simp: logged_def)
  have "fst (dispatch env req (endpoint # nxt # rest) (token, payload, lastError) w)
          = Inr (fst (convertGoogleToAnthropic (randomBytesHex env) d' (req_model req) (draws w)))
        \<and> generateCalls (history (snd (dispatch env req (endpoint # nxt # rest)
                                         (token, payload, lastError) w)))
          = generateCalls (history w)
            @ [(endpoint, token, p_project payload), (nxt, token', project')]
        \<and> refreshCount (history (snd (dispatch env req (endpoint # nxt # rest)
                                         (token, payload, lastError) w)))
          = refreshCount (history w) + 1"
    if "generateContentResult env (history w') nxt token' (payload\<lparr>p_project := project'\<rparr>)
          = Response status bodyText (Inr d')" and "ok status"
    for status bodyText d'
    unfolding step dispatch_success [OF that]
    by (simp add: d h logged_def refreshCount_append refreshCount_simps refreshCount_discovery
        generateCalls_append generateCalls_simps generateCalls_discovery)
  with step c n h show ?thesis
    by blast
qed

text \<open>
  In the sample environment, with the expired token and the project \<open>proj-old\<close> in the
  payload: the first host answers 401, the refresh gives the token \<open>ya29.new\<close> and the
  project \<open>proj-new\<close>, and the second host answers the updated request.
\<close>

theorem unauthorized_refreshes_and_advances_witness:
  "map_sum id resp_content
     (fst (dispatch expiredTokenEnv helloRequest ANTIGRAVITY_ENDPOINT_FALLBACKS
             (''ya29.old'', samplePayload, None) emptyWorld))
     = Inr [TextBlock ANTIGRAVITY_ENDPOINT_AUTOPUSH]
   \<and> generateCalls
       (history (snd (dispatch expiredTokenEnv helloRequest ANTIGRAVITY_ENDPOINT_FALLBACKS
                        (''ya29.old'', samplePayload, None) emptyWorld)))
     = [(ANTIGRAVITY_ENDPOINT_DAILY, ''ya29.old'', ''proj-old''),
        (ANTIGRAVITY_ENDPOINT_AUTOPUSH, ''ya29.new'', ''proj-new'')]
   \<and> refreshCount
       (history (snd (dispatch expiredTokenEnv helloRequest ANTIGRAVITY_ENDPOINT_FALLBACKS
                        (''ya29.old'', samplePayload, None) emptyWorld)))
     = 1"
proof -
  let ?w' = "\<lparr>cachedProject = Some ''proj-new'',
      history = [GenerateContent ANTIGRAVITY_ENDPOINT_DAILY ''ya29.old'' samplePayload,
                 RefreshToken, GetToken,
                 LoadCodeAssist ANTIGRAVITY_ENDPOINT_DAILY ''ya29.new''],
      draws = 0\<rparr>"
  have a: "generateContentResult expiredTokenEnv (history emptyWorld) ANTIGRAVITY_ENDPOINT_DAILY
      ''ya29.old'' samplePayload = Response 401 (Inr ''UNAUTHENTICATED'') (Inl BODY_ALREADY_READ)"
    by (simp add: expiredTokenEnv_def)
  have b: "refreshAndGetProject expiredTokenEnv
      (logged (GenerateContent ANTIGRAVITY_ENDPOINT_DAILY ''ya29.old'' samplePayload) emptyWorld)
      = (Inr (''ya29.new'', ''proj-new''), ?w')"
    by (simp add: refreshAndGetProject_def expiredTokenEnv_def emptyWorld_def logged_def Let_def
        clearProjectCache_def getProject_def ANTIGRAVITY_ENDPOINT_FALLBACKS_def discover.simps ok_def)
  have c: "generateContentResult expiredTokenEnv (history ?w') ANTIGRAVITY_ENDPOINT_AUTOPUSH
      ''ya29.new'' (samplePayload\<lparr>p_project := ''proj-new''\<rparr>)
      = Response 200 (Inr []) (Inr (responseWith [TextPart ANTIGRAVITY_ENDPOINT_AUTOPUSH False]))
      \<and> ok 200"
    by (simp add: expiredTokenEnv_def ok_def)
  have p: "p_project samplePayload = ''proj-old''"
    by (simp add: samplePayload_def buildCloudCodeRequest_def Let_def)
  have r: "resp_content (fst (convertGoogleToAnthropic (randomBytesHex expiredTokenEnv)
      (responseWith [TextPart ANTIGRAVITY_ENDPOINT_AUTOPUSH False]) m n))
      = [TextBlock ANTIGRAVITY_ENDPOINT_AUTOPUSH]" for m n
    by (simp add: convertGoogleToAnthropic_content responseWith_def bodyOf_def
        firstCandidateOf_def partsOf_def)
  from unauthorized_refreshes_and_advances [OF a b, of helloRequest ANTIGRAVITY_ENDPOINT_AUTOPUSH
      "[ANTIGRAVITY_ENDPOINT_PROD]" None] c
  have "fst (dispatch expiredTokenEnv helloRequest ANTIGRAVITY_ENDPOINT_FALLBACKS
               (''ya29.old'', samplePayload, None) emptyWorld)
          = Inr (fst (convertGoogleToAnthropic (randomBytesHex expiredTokenEnv)
                  (responseWith [TextPart ANTIGRAVITY_ENDPOINT_AUTOPUSH False])
                  (req_model helloRequest) (draws emptyWorld)))
      \<and> generateCalls (history (snd (dispatch expiredTokenEnv helloRequest ANTIGRAVITY_ENDPOINT_FALLBACKS
               (''ya29.old'', samplePayload, None) emptyWorld)))
          = generateCalls (history emptyWorld)
            @ [(ANTIGRAVITY_ENDPOINT_DAILY, ''ya29.old'', p_project samplePayload),
               (ANTIGRAVITY_ENDPOINT_AUTOPUSH, ''ya29.new'', ''proj-new'')]
      \<and> refreshCount (history (snd (dispatch expiredTokenEnv helloRequest ANTIGRAVITY_ENDPOINT_FALLBACKS
               (''ya29.old'', samplePayload, None) emptyWorld)))
          = refreshCount (history emptyWorld) + 1"
    unfolding ANTIGRAVITY_ENDPOINT_FALLBACKS_def by blast
  with p r show ?thesis
    by (simp add: emptyWorld_def refreshCount_simps generateCalls_simps)
qed

end
